theory Spec2Isabelle
  imports Main "HOL-Library.Word" "HOL-Library.Signed_Division"
begin

unbundle bit_operations_syntax

section \<open>Shared data: bytes, page identifiers, errors\<close>

text \<open>
  A Go \<^verbatim>\<open>byte\<close> is an 8-bit word and \<^verbatim>\<open>disk.PageID\<close> (an \<^verbatim>\<open>int64\<close>) a 64-bit
  word whose order is the signed one (\<open>\<le>s\<close>). \<^verbatim>\<open>uint64(i)\<close> and \<^verbatim>\<open>disk.PageID(u)\<close>
  keep the bit pattern, so both conversions are the identity on \<open>64 word\<close>.
\<close>

type_synonym byte = "8 word"

type_synonym PageID = "64 word"

definition PageSize :: nat where
  "PageSize = 4096"

text \<open>\<^verbatim>\<open>InvalidID = PageID(-1)\<close> of disk.go.\<close>

definition InvalidID :: PageID where
  "InvalidID = - 1"

text \<open>
  Modelled from the spec: btree.go refers to \<^verbatim>\<open>disk.InvalidPageID\<close>, which disk.go
  does not declare (it declares \<^verbatim>\<open>InvalidID\<close>). The spec reserves \<open>-1\<close> as the one
  invalid page identifier, so the constant is \<open>-1\<close> as well.
\<close>

definition InvalidPageID :: PageID where
  "InvalidPageID = - 1"

text \<open>
  Every \<^verbatim>\<open>fmt.Errorf\<close> of the sources is one constructor, named after its message;
  \<open>IndexOutOfRange\<close> is the run-time panic of an out-of-range index, and
  \<open>PoolExhausted\<close> the error the specification names for a pool without a free frame.
\<close>

datatype error =
    InvalidPageSize    \<comment> \<open>"invalid page size: got %d, want %d"\<close>
  | InvalidPageIDErr   \<comment> \<open>"invalid page id: got %d"\<close>
  | InvalidHeapSize    \<comment> \<open>"invalid heap file size: got %d"\<close>
  | SeekFailed         \<comment> \<open>"failed to seek page data: %w"\<close>
  | ReadFailed         \<comment> \<open>"failed to read page data: %w"\<close>
  | WriteFailed        \<comment> \<open>"failed to write page data: %w"\<close>
  | InvalidNodeType    \<comment> \<open>"invalid node type: got %s, want %s"\<close>
  | IndexOutOfRange
  | PoolExhausted

section \<open>Little-endian encoding (\<^verbatim>\<open>encoding/binary\<close>)\<close>

text \<open>
  \<^verbatim>\<open>binary.LittleEndian.Uint64(b)\<close> is
  \<^verbatim>\<open>uint64(b[0]) | uint64(b[1])<<8 | ... | uint64(b[7])<<56\<close>, and \<^verbatim>\<open>Uint16\<close> the
  same on two bytes: \<open>le_word\<close> on the bytes read. \<^verbatim>\<open>PutUint64(b, v)\<close> stores
  \<^verbatim>\<open>byte(v), byte(v>>8), ..., byte(v>>56)\<close>: \<open>put_le 8 v\<close>.
\<close>

fun le_word :: "byte list \<Rightarrow> 'a::len word" where
  "le_word [] = 0"
| "le_word (b # bs) = ucast b OR push_bit 8 (le_word bs)"

fun put_le :: "nat \<Rightarrow> 'a::len word \<Rightarrow> byte list" where
  "put_le 0 v = []"
| "put_le (Suc n) v = ucast v # put_le n (drop_bit 8 v)"

text \<open>The unsigned number a byte sequence denotes in little-endian order.\<close>

fun le_nat :: "byte list \<Rightarrow> nat" where
  "le_nat [] = 0"
| "le_nat (b # bs) = unat b + 256 * le_nat bs"

text \<open>\<^verbatim>\<open>Uint64\<close> reads \<^verbatim>\<open>b[0..7]\<close>; with fewer than 8 bytes it panics.\<close>

definition Uint64 :: "byte list \<Rightarrow> error + 64 word" where
  "Uint64 b = (if length b < 8 then Inl IndexOutOfRange else Inr (le_word (take 8 b)))"

definition Uint16 :: "byte list \<Rightarrow> error + 16 word" where
  "Uint16 b = (if length b < 2 then Inl IndexOutOfRange else Inr (le_word (take 2 b)))"

text \<open>
  \<^verbatim>\<open>toPageID\<close>: the length test runs first, so \<^verbatim>\<open>Uint64\<close> is only reached with
  exactly 8 bytes and cannot panic there.
\<close>

definition toPageID :: "byte list \<Rightarrow> PageID" where
  "toPageID b =
     (if length b \<noteq> 8 then InvalidPageID
      else (case Uint64 b of Inr v \<Rightarrow> v | Inl e \<Rightarrow> InvalidPageID))"

definition to8Bytes :: "PageID \<Rightarrow> byte list" where
  "to8Bytes i = put_le 8 i"

definition to2Bytes :: "16 word \<Rightarrow> byte list" where
  "to2Bytes i = put_le 2 i"

section \<open>Slices of a page buffer\<close>

text \<open>
  The views of btree.go hold sub-slices of one page buffer (\<^verbatim>\<open>pageData[:8]\<close>,
  \<^verbatim>\<open>nodeBody[8:16]\<close>, ...): they share its backing array, and \<^verbatim>\<open>copy\<close> through
  a view writes into the page. A slice is therefore a window (first index, length) into
  the buffer, the buffer is passed explicitly, and every function that writes returns
  the buffer it leaves behind.
\<close>

record slice =
  offset :: nat
  extent :: nat

definition whole :: "byte list \<Rightarrow> slice" where
  "whole buf = \<lparr>offset = 0, extent = length buf\<rparr>"

text \<open>
  \<^verbatim>\<open>s[i:j]\<close>. Go panics unless \<open>i \<le> j \<le> cap s\<close>; every re-slicing of the sources
  follows a test of the length of \<open>s\<close> that guarantees it.
\<close>

definition reslice :: "slice \<Rightarrow> nat \<Rightarrow> nat \<Rightarrow> slice" where
  "reslice s i j = \<lparr>offset = offset s + i, extent = j - i\<rparr>"

definition bytes_of :: "byte list \<Rightarrow> slice \<Rightarrow> byte list" where
  "bytes_of buf s = take (extent s) (drop (offset s) buf)"

text \<open>\<^verbatim>\<open>copy(dst, src)\<close> copies \<open>min (len dst) (len src)\<close> bytes.\<close>

definition copy_to :: "byte list \<Rightarrow> slice \<Rightarrow> byte list \<Rightarrow> byte list" where
  "copy_to buf dst src =
     (let n = min (extent dst) (length src)
      in take (offset dst) buf @ take n src @ drop (offset dst + n) buf)"

section \<open>Meta page (btree.go)\<close>

record MetaHeader =
  rootID :: slice

record Meta =
  meta_header :: MetaHeader

text \<open>
  \<^verbatim>\<open>pool.Page\<close> is not part of the sources at hand; \<^verbatim>\<open>NewMeta\<close> and \<^verbatim>\<open>NewNode\<close> use
  only the byte slice \<^verbatim>\<open>page.GetPageData()\<close>, which is their argument here.
\<close>

definition NewMeta :: "byte list \<Rightarrow> error + Meta" where
  "NewMeta pageData =
     (if length pageData \<noteq> PageSize then Inl InvalidPageSize
      else Inr \<lparr>meta_header = \<lparr>rootID = reslice (whole pageData) 0 8\<rparr>\<rparr>)"

definition GetRootID :: "byte list \<Rightarrow> Meta \<Rightarrow> PageID" where
  "GetRootID buf m = toPageID (bytes_of buf (rootID (meta_header m)))"

definition SetRootID :: "byte list \<Rightarrow> Meta \<Rightarrow> PageID \<Rightarrow> error option \<times> byte list" where
  "SetRootID buf m r =
     (if r \<le>s InvalidPageID then (Some InvalidPageIDErr, buf)
      else (None, copy_to buf (rootID (meta_header m)) (to8Bytes r)))"

section \<open>Node, Slot and Leaf views (btree.go)\<close>

text \<open>A \<^verbatim>\<open>nodetype\<close> is a Go string, that is, a byte sequence.\<close>

type_synonym nodetype = "byte list"

definition LeafNodeType :: nodetype where
  "LeafNodeType = map of_char ''LEAF    ''"

definition BranchNodeType :: nodetype where
  "BranchNodeType = map of_char ''BRANCH  ''"

record NodeHeader =
  nodeType :: slice

record Node =
  node_header :: NodeHeader
  node_body :: slice

definition NewNode :: "byte list \<Rightarrow> error + Node" where
  "NewNode pageData =
     (if length pageData \<noteq> PageSize then Inl InvalidPageSize
      else Inr \<lparr>node_header = \<lparr>nodeType = reslice (whole pageData) 0 8\<rparr>,
                node_body = reslice (whole pageData) 8 (length pageData)\<rparr>)"

definition GetNodeType :: "byte list \<Rightarrow> Node \<Rightarrow> nodetype" where
  "GetNodeType buf n = bytes_of buf (nodeType (node_header n))"

text \<open>
  \<^verbatim>\<open>nodetype\<close> is the only type implementing \<^verbatim>\<open>NodeType\<close>, so the type assertion of
  \<^verbatim>\<open>SetNodeType\<close> succeeds on every value of it.
\<close>

definition SetNodeType :: "byte list \<Rightarrow> Node \<Rightarrow> nodetype \<Rightarrow> byte list" where
  "SetNodeType buf n nt = copy_to buf (nodeType (node_header n)) nt"

record SlotHeader =
  numSlot :: slice
  freeSpace :: slice

record Slot =
  slot_header :: SlotHeader
  slot_body :: slice

definition Slot_reset :: "byte list \<Rightarrow> Slot \<Rightarrow> byte list" where
  "Slot_reset buf s =
     (let buf1 = copy_to buf (numSlot (slot_header s)) (to2Bytes 0)
      in copy_to buf1 (freeSpace (slot_header s)) (to2Bytes (of_nat (extent (slot_body s)))))"

record LeafHeader =
  prevID :: slice
  nextID :: slice

record Leaf =
  leaf_header :: LeafHeader
  leaf_body :: Slot

definition Leaf_reset :: "byte list \<Rightarrow> Leaf \<Rightarrow> byte list" where
  "Leaf_reset buf l =
     (let buf1 = copy_to buf (prevID (leaf_header l)) (to8Bytes InvalidPageID);
          buf2 = copy_to buf1 (nextID (leaf_header l)) (to8Bytes InvalidPageID)
      in Slot_reset buf2 (leaf_body l))"

definition NewLeaf :: "byte list \<Rightarrow> Node \<Rightarrow> (error + Leaf) \<times> byte list" where
  "NewLeaf buf node =
     (if bytes_of buf (nodeType (node_header node)) \<noteq> LeafNodeType
      then (Inl InvalidNodeType, buf)
      else
        let nodeBody = node_body node in
        if extent nodeBody \<noteq> PageSize - 8 then (Inl InvalidPageSize, buf)
        else
          let leaf = \<lparr>leaf_header = \<lparr>prevID = reslice nodeBody 0 8,
                                      nextID = reslice nodeBody 8 16\<rparr>,
                      leaf_body = \<lparr>slot_header = \<lparr>numSlot = reslice nodeBody 16 18,
                                                  freeSpace = reslice nodeBody 18 20\<rparr>,
                                   slot_body = reslice nodeBody 20 (extent nodeBody)\<rparr>\<rparr>
          in (Inr leaf, Leaf_reset buf leaf))"

definition GetPrevID :: "byte list \<Rightarrow> Leaf \<Rightarrow> PageID" where
  "GetPrevID buf l = toPageID (bytes_of buf (prevID (leaf_header l)))"

definition GetNextID :: "byte list \<Rightarrow> Leaf \<Rightarrow> PageID" where
  "GetNextID buf l = toPageID (bytes_of buf (nextID (leaf_header l)))"

definition GetNumSlots :: "byte list \<Rightarrow> Leaf \<Rightarrow> error + 16 word" where
  "GetNumSlots buf l = Uint16 (bytes_of buf (numSlot (slot_header (leaf_body l))))"

definition GetFreeSpace :: "byte list \<Rightarrow> Leaf \<Rightarrow> error + 16 word" where
  "GetFreeSpace buf l = Uint16 (bytes_of buf (freeSpace (slot_header (leaf_body l))))"

section \<open>The views of a full page, and example pages\<close>

text \<open>
  Over a buffer of \<open>PageSize\<close> bytes \<^verbatim>\<open>NewMeta\<close>, \<^verbatim>\<open>NewNode\<close> and \<^verbatim>\<open>NewLeaf\<close> always
  build the same windows; they are named here. The example pages are inputs at which the
  theorems below are instantiated.
\<close>

definition meta_view :: Meta where
  "meta_view = \<lparr>meta_header = \<lparr>rootID = \<lparr>offset = 0, extent = 8\<rparr>\<rparr>\<rparr>"

definition full_node :: Node where
  "full_node = \<lparr>node_header = \<lparr>nodeType = \<lparr>offset = 0, extent = 8\<rparr>\<rparr>,
                 node_body = \<lparr>offset = 8, extent = 4088\<rparr>\<rparr>"

definition leaf_view :: Leaf where
  "leaf_view = \<lparr>leaf_header = \<lparr>prevID = \<lparr>offset = 8, extent = 8\<rparr>,
                                nextID = \<lparr>offset = 16, extent = 8\<rparr>\<rparr>,
                leaf_body = \<lparr>slot_header = \<lparr>numSlot = \<lparr>offset = 24, extent = 2\<rparr>,
                                            freeSpace = \<lparr>offset = 26, extent = 2\<rparr>\<rparr>,
                             slot_body = \<lparr>offset = 28, extent = 4068\<rparr>\<rparr>\<rparr>"

definition high_bytes :: "byte list" where
  "high_bytes = [0, 0, 0, 0, 0, 0, 0, 0x80]"

definition high_page :: "byte list" where
  "high_page = high_bytes @ high_bytes @ high_bytes @ replicate 4072 0"

definition leaf_page :: "byte list" where
  "leaf_page = LeafNodeType @ replicate 4088 0xAB"

section \<open>The heap file (\<^verbatim>\<open>os.File\<close>)\<close>

text \<open>
  The heap is a regular file: its bytes and the offset of the next read or write. The
  operations are those of \<^verbatim>\<open>os.File\<close> on a file that nothing else changes and whose
  device never fails, so the only errors left are the ones the arguments decide:
  \<^verbatim>\<open>Seek\<close> to a negative offset (\<open>EINVAL\<close>), \<^verbatim>\<open>Read\<close> at or after the end (\<open>io.EOF\<close>) and
  \<^verbatim>\<open>Write\<close> past the largest offset (\<open>EINVAL\<close>). Offsets of a file are \<^verbatim>\<open>int64\<close> values:
  \<^verbatim>\<open>Seek\<close> sets none above \<open>2^63 - 1\<close> and \<^verbatim>\<open>Write\<close> refuses to pass it, so neither the
  offset nor the length of a file that starts below that bound ever exceeds it. A file
  system may have a smaller limit of its own; the model has the limit of the type only.
\<close>

record File =
  contents :: "byte list"
  pos :: nat

datatype os_error = EINVAL | EOF

text \<open>\<^verbatim>\<open>f.Seek(offset, io.SeekStart)\<close>; an offset beyond the end is allowed.\<close>

definition Seek :: "File \<Rightarrow> 64 word \<Rightarrow> os_error + File" where
  "Seek f off = (if sint off < 0 then Inl EINVAL else Inr (f\<lparr>pos := nat (sint off)\<rparr>))"

text \<open>
  \<^verbatim>\<open>f.Read(b)\<close> returns the number of bytes read, the error, and leaves the bytes in the
  front of \<open>b\<close>. It reads what is there, up to \<open>len b\<close> bytes, and reports \<open>io.EOF\<close> only
  when nothing is left: a read that ends early returns fewer bytes and no error.
\<close>

definition Read :: "File \<Rightarrow> byte list \<Rightarrow> (nat \<times> os_error option) \<times> File \<times> byte list" where
  "Read f b =
     (if length b = 0 then ((0, None), f, b)
      else if length (contents f) \<le> pos f then ((0, Some EOF), f, b)
      else
        let n = min (length b) (length (contents f) - pos f)
        in ((n, None), f\<lparr>pos := pos f + n\<rparr>, take n (drop (pos f) (contents f)) @ drop n b))"

text \<open>The largest offset of a file, the largest \<^verbatim>\<open>int64\<close>.\<close>

definition MaxOffset :: nat where
  "MaxOffset = 2 ^ 63 - 1"

text \<open>
  \<^verbatim>\<open>f.Write(b)\<close> stores all of \<open>b\<close> at the offset; a gap between the old end of the file
  and the offset reads as zero bytes. A write that would end beyond the largest offset is
  refused as a whole (\<open>EINVAL\<close>): no byte is written and \<^verbatim>\<open>Write\<close> returns 0 and the
  error.
\<close>

definition Write :: "File \<Rightarrow> byte list \<Rightarrow> (nat \<times> os_error option) \<times> File" where
  "Write f b =
     (if MaxOffset < pos f + length b then ((0, Some EINVAL), f)
      else
        let padded = contents f @ replicate (pos f - length (contents f)) 0
        in ((length b, None),
            f\<lparr>contents := take (pos f) padded @ b @ drop (pos f + length b) padded,
              pos := pos f + length b\<rparr>))"

section \<open>Disk manager (disk.go)\<close>

record FileManager =
  heap :: File
  fm_nextID :: PageID

text \<open>
  \<^verbatim>\<open>NewFileManager\<close>, given the bytes of the file that \<^verbatim>\<open>os.OpenFile\<close> opened (none for a
  file it created). \<^verbatim>\<open>info.Size()\<close> is the length as an \<^verbatim>\<open>int64\<close>; \<^verbatim>\<open>%\<close> and \<^verbatim>\<open>/\<close> are
  Go's truncating signed operations.
\<close>

definition NewFileManager :: "byte list \<Rightarrow> error + FileManager" where
  "NewFileManager c =
     (let heapSize = (word_of_nat (length c) :: 64 word) in
      if sint heapSize smod int PageSize \<noteq> 0 then Inl InvalidHeapSize
      else
        let nextID = (word_of_int (sint heapSize sdiv int PageSize) :: PageID) in
        if nextID \<le>s InvalidID then Inl InvalidPageIDErr
        else Inr \<lparr>heap = \<lparr>contents = c, pos = 0\<rparr>, fm_nextID = nextID\<rparr>)"

text \<open>\<^verbatim>\<open>pageID*PageSize\<close> is a product of \<^verbatim>\<open>int64\<close> values and wraps around.\<close>

definition checkSeek :: "FileManager \<Rightarrow> PageID \<Rightarrow> byte list \<Rightarrow> error option \<times> FileManager" where
  "checkSeek m pageID pageData =
     (if length pageData \<noteq> PageSize then (Some InvalidPageSize, m)
      else if pageID \<le>s InvalidID then (Some InvalidPageIDErr, m)
      else (case Seek (heap m) (pageID * word_of_nat PageSize) of
              Inl e \<Rightarrow> (Some SeekFailed, m)
            | Inr f \<Rightarrow> (None, m\<lparr>heap := f\<rparr>)))"

text \<open>
  \<^verbatim>\<open>ReadPageData\<close> returns its error, the manager and the caller's buffer as it leaves
  them; the byte count of \<^verbatim>\<open>Read\<close> is dropped (\<^verbatim>\<open>_, err := m.heap.Read(pageData)\<close>).
\<close>

definition ReadPageData ::
  "FileManager \<Rightarrow> PageID \<Rightarrow> byte list \<Rightarrow> error option \<times> FileManager \<times> byte list" where
  "ReadPageData m pageID pageData =
     (case checkSeek m pageID pageData of
        (Some e, m') \<Rightarrow> (Some e, m', pageData)
      | (None, m') \<Rightarrow>
          (case Read (heap m') pageData of
             ((n, Some e), f, b) \<Rightarrow> (Some ReadFailed, m'\<lparr>heap := f\<rparr>, b)
           | ((n, None), f, b) \<Rightarrow> (None, m'\<lparr>heap := f\<rparr>, b)))"

definition WritePageData ::
  "FileManager \<Rightarrow> PageID \<Rightarrow> byte list \<Rightarrow> error option \<times> FileManager" where
  "WritePageData m pageID pageData =
     (case checkSeek m pageID pageData of
        (Some e, m') \<Rightarrow> (Some e, m')
      | (None, m') \<Rightarrow>
          (case Write (heap m') pageData of
             ((n, Some e), f) \<Rightarrow> (Some WriteFailed, m'\<lparr>heap := f\<rparr>)
           | ((n, None), f) \<Rightarrow> (None, m'\<lparr>heap := f\<rparr>)))"

definition AllocateNewPage :: "FileManager \<Rightarrow> (PageID \<times> error option) \<times> FileManager" where
  "AllocateNewPage m = ((fm_nextID m, None), m\<lparr>fm_nextID := fm_nextID m + 1\<rparr>)"

text \<open>\<open>k\<close> successive calls of \<^verbatim>\<open>AllocateNewPage\<close>, with the results in call order.\<close>

fun allocate_times :: "nat \<Rightarrow> FileManager \<Rightarrow> (PageID \<times> error option) list \<times> FileManager" where
  "allocate_times 0 m = ([], m)"
| "allocate_times (Suc k) m =
     (case AllocateNewPage m of
        (r, m') \<Rightarrow> (case allocate_times k m' of (rs, m'') \<Rightarrow> (r # rs, m'')))"

text \<open>The length of the heap file is a whole number of pages.\<close>

definition page_aligned :: "FileManager \<Rightarrow> bool" where
  "page_aligned m \<longleftrightarrow> length (contents (heap m)) mod PageSize = 0"

text \<open>
  Example managers: the one \<^verbatim>\<open>NewFileManager\<close> returns for a new, empty heap file, and
  one over a heap file of a single page of \<open>0x09\<close> bytes.
\<close>

definition fresh_manager :: FileManager where
  "fresh_manager = \<lparr>heap = \<lparr>contents = [], pos = 0\<rparr>, fm_nextID = 0\<rparr>"

definition one_page_manager :: FileManager where
  "one_page_manager = \<lparr>heap = \<lparr>contents = replicate 4096 9, pos = 0\<rparr>, fm_nextID = 1\<rparr>"

section \<open>Buffer pool and pool manager (package pool)\<close>

text \<open>
  Modelled from the spec: the package \<^verbatim>\<open>pool\<close> (pages, the pool and the pool manager) is
  not among the sources; only its caller btree.go and its test are. The definitions of
  this section follow sections 3, 4.2, 4.3 and 7 of the specification: a fixed table of
  frames, each with a page identifier, a 4096-byte buffer, a signed pin count (the number
  of outstanding holders) and a dirty flag. A frame can be taken for another page only
  when its pin count is zero; \<^verbatim>\<open>createPage\<close> leaves the implicit reference of its caller
  in the count, a fetch adds one and a release subtracts one. The pin counts are those of
  the specification; section 9 of the specification leaves open what the counts below
  zero mean that the test of the package expects.
\<close>

record Page =
  page_id :: PageID
  pin_count :: int
  page_data :: "byte list"
  page_update :: bool

record PoolManager =
  fileManager :: FileManager
  pool :: "Page list"

text \<open>
  Modelled from the spec: \<^verbatim>\<open>pool.NewPool(n)\<close>, a table of \<open>n\<close> empty frames: no page, no
  holder, not dirty.
\<close>

definition NewPool :: "nat \<Rightarrow> Page list" where
  "NewPool n =
     replicate n \<lparr>page_id = InvalidID, pin_count = 0,
                  page_data = replicate PageSize 0, page_update = False\<rparr>"

text \<open>Modelled from the spec: \<^verbatim>\<open>pool.NewPoolManager(fileManager, pool)\<close>.\<close>

definition NewPoolManager :: "FileManager \<Rightarrow> Page list \<Rightarrow> PoolManager" where
  "NewPoolManager fm p = \<lparr>fileManager = fm, pool = p\<rparr>"

text \<open>The index of the first element that satisfies a test.\<close>

fun index_of :: "('a \<Rightarrow> bool) \<Rightarrow> 'a list \<Rightarrow> nat option" where
  "index_of P [] = None"
| "index_of P (x # xs) = (if P x then Some 0 else map_option Suc (index_of P xs))"

text \<open>
  Modelled from the spec: the choice of a frame (section 4.2): a free frame if there is
  one, otherwise a victim among the frames with pin count 0, here the first one (any
  deterministic choice is allowed). A pinned frame is never chosen.
\<close>

definition victim :: "Page list \<Rightarrow> nat option" where
  "victim ps =
     (case index_of (\<lambda>p. page_id p \<le>s InvalidID \<and> pin_count p = 0) ps of
        Some i \<Rightarrow> Some i
      | None \<Rightarrow> index_of (\<lambda>p. pin_count p = 0) ps)"

text \<open>
  Modelled from the spec: taking a frame for a new mapping (sections 4.2 and 7). Without
  an unpinned frame the error is \<open>PoolExhausted\<close>. A dirty victim is written to the disk
  manager before the frame is given away and its dirty flag is cleared only after the
  write succeeded; a failed write aborts the eviction, leaves every frame as it was and
  is reported as \<open>PoolExhausted\<close>. The result carries the pool manager as the attempt
  leaves it. The \<^verbatim>\<open>sync\<close> of the disk manager changes nothing in the model of the file.
\<close>

definition evict :: "PoolManager \<Rightarrow> error \<times> PoolManager + nat \<times> PoolManager" where
  "evict pm =
     (case victim (pool pm) of
        None \<Rightarrow> Inl (PoolExhausted, pm)
      | Some i \<Rightarrow>
          let p = pool pm ! i in
          if page_update p \<and> \<not> page_id p \<le>s InvalidID then
            (case WritePageData (fileManager pm) (page_id p) (page_data p) of
               (Some e, fm) \<Rightarrow> Inl (PoolExhausted, pm\<lparr>fileManager := fm\<rparr>)
             | (None, fm) \<Rightarrow>
                 Inr (i, pm\<lparr>fileManager := fm, pool := (pool pm)[i := p\<lparr>page_update := False\<rparr>]\<rparr>))
          else Inr (i, pm))"

text \<open>
  Modelled from the spec: \<^verbatim>\<open>createPage\<close> (section 4.3) allocates an identifier, obtains a
  frame, fills its buffer with zero bytes, marks it dirty, sets the pin count to the one
  implicit reference that the caller must release later, and returns the identifier.
  Without a frame it fails with \<open>PoolExhausted\<close> and allocates nothing (section 7: no
  partial success), so the frame is obtained before the identifier is allocated; for a
  call that succeeds the order of the two steps makes no difference.
\<close>

definition CreatePage :: "PoolManager \<Rightarrow> (error + PageID) \<times> PoolManager" where
  "CreatePage pm =
     (case evict pm of
        Inl (e, pm1) \<Rightarrow> (Inl e, pm1)
      | Inr (i, pm1) \<Rightarrow>
          (case AllocateNewPage (fileManager pm1) of
             ((pageID, err), fm) \<Rightarrow>
               (Inr pageID,
                pm1\<lparr>fileManager := fm,
                    pool := (pool pm1)[i := \<lparr>page_id = pageID, pin_count = 1,
                                             page_data = replicate PageSize 0,
                                             page_update = True\<rparr>]\<rparr>)))"

text \<open>
  Modelled from the spec: \<^verbatim>\<open>fetchPage\<close> (section 4.3). The handle returned is the index of
  the frame. For a page that is in the pool the pin count of its frame is incremented and
  no I/O happens; otherwise a frame is obtained, the page is read from the disk manager
  into its buffer and the pin count is set to 1. It fails with the invalid-page-id error
  for an identifier \<open>\<le> -1\<close> and with \<open>PoolExhausted\<close> when no frame can be obtained.
\<close>

definition FetchPage :: "PoolManager \<Rightarrow> PageID \<Rightarrow> (error + nat) \<times> PoolManager" where
  "FetchPage pm pageID =
     (if pageID \<le>s InvalidID then (Inl InvalidPageIDErr, pm)
      else
        (case index_of (\<lambda>p. page_id p = pageID) (pool pm) of
           Some i \<Rightarrow>
             (Inr i, pm\<lparr>pool := (pool pm)[i := (pool pm ! i)\<lparr>pin_count := pin_count (pool pm ! i) + 1\<rparr>]\<rparr>)
         | None \<Rightarrow>
             (case evict pm of
                Inl (e, pm1) \<Rightarrow> (Inl e, pm1)
              | Inr (i, pm1) \<Rightarrow>
                  (case ReadPageData (fileManager pm1) pageID (page_data (pool pm1 ! i)) of
                     (Some e, fm, buf) \<Rightarrow> (Inl e, pm1\<lparr>fileManager := fm\<rparr>)
                   | (None, fm, buf) \<Rightarrow>
                       (Inr i,
                        pm1\<lparr>fileManager := fm,
                            pool := (pool pm1)[i := \<lparr>page_id = pageID,
                                                     pin_count = 1,
                                                     page_data = buf,
                                                     page_update = False\<rparr>]\<rparr>)))))"

text \<open>
  Modelled from the spec: the operations on a page handle that btree.go uses (section
  4.3): \<^verbatim>\<open>GetPageData\<close> gives the buffer of the frame, \<^verbatim>\<open>Unpin\<close> decrements the pin count
  by one and \<^verbatim>\<open>GetPinCount\<close> reads it. A handle is an index that \<^verbatim>\<open>FetchPage\<close> returned,
  so it lies within the table.
\<close>

definition GetPageData :: "PoolManager \<Rightarrow> nat \<Rightarrow> byte list" where
  "GetPageData pm h = page_data (pool pm ! h)"



section \<open>B-tree handle (btree.go)\<close>

record BTree =
  metaID :: PageID

text \<open>
  A view built from a page handle views the buffer of that frame: what is written through
  the view is written into the frame.
\<close>

definition put_page_data :: "PoolManager \<Rightarrow> nat \<Rightarrow> byte list \<Rightarrow> PoolManager" where
  "put_page_data pm h buf = pm\<lparr>pool := (pool pm)[h := (pool pm ! h)\<lparr>page_data := buf\<rparr>]\<rparr>"

definition NewBTree :: "PoolManager \<Rightarrow> (error + BTree) \<times> PoolManager" where
  "NewBTree pm =
     (case CreatePage pm of
        (Inl e, pm1) \<Rightarrow> (Inl e, pm1)
      | (Inr mID, pm1) \<Rightarrow>
     (case FetchPage pm1 mID of
        (Inl e, pm2) \<Rightarrow> (Inl e, pm2)
      | (Inr metaPage, pm2) \<Rightarrow>
     (case CreatePage pm2 of
        (Inl e, pm3) \<Rightarrow> (Inl e, pm3)
      | (Inr rID, pm3) \<Rightarrow>
     (case FetchPage pm3 rID of
        (Inl e, pm4) \<Rightarrow> (Inl e, pm4)
      | (Inr rootPage, pm4) \<Rightarrow>
     (case NewMeta (GetPageData pm4 metaPage) of
        Inl e \<Rightarrow> (Inl e, pm4)
      | Inr metaData \<Rightarrow>
     (case SetRootID (GetPageData pm4 metaPage) metaData rID of
        (Some e, buf) \<Rightarrow> (Inl e, put_page_data pm4 metaPage buf)
      | (None, buf) \<Rightarrow>
     (let pm5 = put_page_data pm4 metaPage buf in
      case NewNode (GetPageData pm5 rootPage) of
        Inl e \<Rightarrow> (Inl e, pm5)
      | Inr rootNode \<Rightarrow>
     (let pm6 = put_page_data pm5 rootPage (SetNodeType (GetPageData pm5 rootPage) rootNode LeafNodeType) in
      case NewLeaf (GetPageData pm6 rootPage) rootNode of
        (Inl e, buf) \<Rightarrow> (Inl e, put_page_data pm6 rootPage buf)
      | (Inr leaf, buf) \<Rightarrow> (Inr \<lparr>metaID = mID\<rparr>, put_page_data pm6 rootPage buf)))))))))"



text \<open>Example pool managers: a new heap file behind a pool of one and of two frames.\<close>

definition pool1 :: PoolManager where
  "pool1 = NewPoolManager fresh_manager (NewPool 1)"


text \<open>The frame of a new pool.\<close>

definition empty_frame :: Page where
  "empty_frame = \<lparr>page_id = InvalidID, pin_count = 0,
                   page_data = replicate PageSize 0, page_update = False\<rparr>"

section \<open>Facts about the little-endian encoding\<close>

lemma length_put_le: "length (put_le n v) = n"
  by (induction n arbitrary: v) auto

lemma unat_byte_bound: "unat (b :: byte) < 256"
  using unsigned_less [where ?'a = nat, of b] by simp

lemma le_nat_bound: "le_nat bs < 256 ^ length bs"
proof (induction bs)
  case Nil then show ?case by simp
next
  case (Cons b bs)
  with unat_byte_bound [of b] show ?case by simp
qed

lemma ucast_byte_disjoint: "(ucast (b :: byte) :: 'a::len word) AND push_bit 8 w = 0"
  by (rule bit_word_eqI) (auto simp: bit_simps dest: bit_imp_le_length)

lemma le_word_of_nat: "(le_word bs :: 'a::len word) = of_nat (le_nat bs)"
proof (induction bs)
  case Nil then show ?case by simp
next
  case (Cons b bs)
  have "(ucast b :: 'a word) OR push_bit 8 (le_word bs) = ucast b + push_bit 8 (le_word bs)"
    by (rule disjunctive_add_eq_or [symmetric]) (rule ucast_byte_disjoint)
  moreover have "(ucast b :: 'a word) = of_nat (unat b)"
    by simp
  moreover have "push_bit 8 (le_word bs :: 'a word) = of_nat (256 * le_nat bs)"
    unfolding Cons by (simp only: push_bit_eq_mult of_nat_mult) simp
  ultimately show ?case
    by (simp only: le_word.simps le_nat.simps of_nat_add)
qed

lemma unat_le_word:
  assumes "8 * length bs \<le> LENGTH('a::len)"
  shows "unat (le_word bs :: 'a word) = le_nat bs"
proof -
  have "le_nat bs < 2 ^ (8 * length bs)"
    using le_nat_bound [of bs] by (simp add: power_mult)
  also have "\<dots> \<le> (2::nat) ^ LENGTH('a)"
    using assms by (intro power_increasing) auto
  finally show ?thesis
    by (simp add: le_word_of_nat unat_of_nat)
qed

text \<open>Decoding what \<open>put_le\<close> wrote gives the low \<open>8 * n\<close> bits back.\<close>

lemma le_word_put_le: "(le_word (put_le n v) :: 'a::len word) = take_bit (8 * n) v"
proof (induction n arbitrary: v)
  case 0 then show ?case by simp
next
  case (Suc n)
  show ?case
    apply (simp add: Suc)
    apply (rule bit_word_eqI)
    apply (auto simp: bit_simps)
    done
qed

lemma put_le_numeral:
  "put_le (numeral k) v = ucast v # put_le (pred_numeral k) (drop_bit 8 v)"
  by (simp add: numeral_eq_Suc)

lemma put_le_8_7: "put_le 8 (7 :: 64 word) = [7, 0, 0, 0, 0, 0, 0, 0]"
  by (simp add: put_le_numeral)

lemma take_bit_64_word: "take_bit 64 (v :: 64 word) = v"
  by (rule take_bit_length_eq [where ?'a = 64, simplified])

lemma take_bit_16_word: "take_bit 16 (v :: 16 word) = v"
  by (rule take_bit_length_eq [where ?'a = 16, simplified])

lemma toPageID_to8Bytes: "toPageID (to8Bytes i) = i"
  by (simp add: toPageID_def to8Bytes_def Uint64_def length_put_le le_word_put_le take_bit_64_word)

lemma to8Bytes_258: "to8Bytes 258 = [2, 1, 0, 0, 0, 0, 0, 0]"
  by (simp add: to8Bytes_def put_le_numeral)

lemma Uint16_to2Bytes: "Uint16 (to2Bytes i) = Inr i"
  by (simp add: to2Bytes_def Uint16_def length_put_le le_word_put_le take_bit_16_word)

lemma toPageID_len8: "length b = 8 \<Longrightarrow> toPageID b = le_word b"
  by (simp add: toPageID_def Uint64_def)

lemma le_nat_to8Bytes: "le_nat (to8Bytes i) = unat i"
proof -
  have "unat (le_word (to8Bytes i) :: 64 word) = le_nat (to8Bytes i)"
    by (rule unat_le_word) (simp add: to8Bytes_def length_put_le)
  then show ?thesis
    by (simp add: to8Bytes_def le_word_put_le take_bit_64_word)
qed

text \<open>The signed value of a 64-bit word, from its unsigned value.\<close>

lemma sint_unat64:
  "sint (w :: 64 word) = (if unat w < 2 ^ 63 then int (unat w) else int (unat w) - 2 ^ 64)"
proof -
  have b: "uint w < 2 ^ 64" using uint_lt2p [of w] by simp
  have c: "0 \<le> uint w" by simp
  have "sint w = (uint w + 2 ^ 63) mod 2 ^ 64 - 2 ^ 63"
    by (simp add: sint_uint signed_take_bit_eq_take_bit_shift take_bit_eq_mod)
  also have "\<dots> = (if uint w < 2 ^ 63 then uint w else uint w - 2 ^ 64)"
  proof (cases "uint w < 2 ^ 63")
    case True
    then have "(uint w + 2 ^ 63) mod 2 ^ 64 = uint w + 2 ^ 63"
      using c by (intro mod_pos_pos_trivial) auto
    with True show ?thesis by simp
  next
    case False
    have "(uint w + 2 ^ 63) mod 2 ^ 64 = (uint w + 2 ^ 63 - 2 ^ 64) mod 2 ^ 64"
      by (metis mod_diff_right_eq mod_self diff_zero)
    also have "\<dots> = uint w + 2 ^ 63 - 2 ^ 64"
      using False b by (intro mod_pos_pos_trivial) auto
    finally show ?thesis using False by simp
  qed
  finally have "sint w = (if uint w < 2 ^ 63 then uint w else uint w - 2 ^ 64)" .
  then show ?thesis
    by (simp only: uint_nat of_nat_less_numeral_power_cancel_iff)
qed

lemma sge0_unat:
  assumes "0 \<le>s (w :: 64 word)"
  shows "unat w < 2 ^ 63" and "sint w = int (unat w)"
proof -
  have s: "0 \<le> sint w"
    using assms by (simp add: word_sle_eq)
  have "uint w < 2 ^ 64"
    using uint_lt2p [of w] by simp
  then have b: "int (unat w) < 2 ^ 64"
    by (simp only: uint_nat)
  show u: "unat w < 2 ^ 63"
  proof (rule ccontr)
    assume "\<not> unat w < 2 ^ 63"
    then have "sint w = int (unat w) - 2 ^ 64"
      by (simp only: sint_unat64 [of w] if_False)
    with s b show False by linarith
  qed
  then show "sint w = int (unat w)"
    by (simp only: sint_unat64 [of w] if_True)
qed

lemma sle_cases: "(r :: 64 word) \<le>s - 1 \<longleftrightarrow> \<not> 0 \<le>s r"
  by (simp add: word_sle_eq) presburger

lemma sint_toPageID:
  assumes "length b = 8"
  shows "uint (toPageID b) = int (le_nat b)"
    and "sint (toPageID b) = (if le_nat b < 2 ^ 63 then int (le_nat b) else int (le_nat b) - 2 ^ 64)"
proof -
  have u: "unat (toPageID b) = le_nat b"
    using assms by (simp add: toPageID_len8 unat_le_word)
  then show "uint (toPageID b) = int (le_nat b)"
    by (simp only: uint_nat)
  show "sint (toPageID b) = (if le_nat b < 2 ^ 63 then int (le_nat b) else int (le_nat b) - 2 ^ 64)"
    by (simp only: sint_unat64 u)
qed

section \<open>Facts about slices\<close>

lemma length_copy_to:
  "offset s + extent s \<le> length buf \<Longrightarrow> length (copy_to buf s src) = length buf"
  by (auto simp: copy_to_def Let_def min_def)

text \<open>\<^verbatim>\<open>copy\<close> changes the bytes of the destination window and no others.\<close>

lemma nth_copy_to:
  assumes "offset s + extent s \<le> length buf" and "length src = extent s" and "i < length buf"
  shows "copy_to buf s src ! i =
           (if offset s \<le> i \<and> i < offset s + extent s then src ! (i - offset s) else buf ! i)"
  using assms by (auto simp: copy_to_def Let_def nth_append min_def)

lemma bytes_of_copy_to_same:
  assumes "offset s + extent s \<le> length buf" and "length src = extent s"
  shows "bytes_of (copy_to buf s src) s = src"
  using assms by (simp add: bytes_of_def copy_to_def Let_def min_def)

lemma drop_copy_to:
  assumes "offset s + extent s \<le> length buf" and "length src = extent s"
    and "offset s + extent s \<le> k"
  shows "drop k (copy_to buf s src) = drop k buf"
  using assms by (simp add: copy_to_def Let_def min_def)

lemma take_copy_to:
  assumes "offset s + extent s \<le> length buf" and "length src = extent s"
    and "k \<le> offset s"
  shows "take k (copy_to buf s src) = take k buf"
  using assms by (simp add: copy_to_def Let_def min_def)

lemma bytes_of_copy_to_other:
  assumes "offset s + extent s \<le> length buf" and "length src = extent s"
    and "offset t + extent t \<le> offset s \<or> offset s + extent s \<le> offset t"
  shows "bytes_of (copy_to buf s src) t = bytes_of buf t"
proof -
  have len: "length (copy_to buf s src) = length buf"
    using assms(1) by (rule length_copy_to)
  show ?thesis
    unfolding bytes_of_def
  proof (rule nth_equalityI)
    show "length (take (extent t) (drop (offset t) (copy_to buf s src))) =
          length (take (extent t) (drop (offset t) buf))"
      by (simp add: len)
  next
    fix i assume "i < length (take (extent t) (drop (offset t) (copy_to buf s src)))"
    then have i: "i < extent t" "offset t + i < length buf"
      by (auto simp: len)
    then show "take (extent t) (drop (offset t) (copy_to buf s src)) ! i =
               take (extent t) (drop (offset t) buf) ! i"
      using assms(3) by (auto simp: len nth_copy_to [OF assms(1,2)])
  qed
qed

section \<open>Facts about the views of a full page\<close>

lemma NewMeta_page:
  "length page = PageSize \<Longrightarrow>
   NewMeta page = Inr \<lparr>meta_header = \<lparr>rootID = \<lparr>offset = 0, extent = 8\<rparr>\<rparr>\<rparr>"
  by (simp add: NewMeta_def reslice_def whole_def)

lemma NewMeta_view: "length page = PageSize \<Longrightarrow> NewMeta page = Inr meta_view"
  by (simp add: NewMeta_page meta_view_def)

lemma NewNode_page:
  "length page = PageSize \<Longrightarrow>
   NewNode page = Inr \<lparr>node_header = \<lparr>nodeType = \<lparr>offset = 0, extent = 8\<rparr>\<rparr>,
                        node_body = \<lparr>offset = 8, extent = 4088\<rparr>\<rparr>"
  by (simp add: NewNode_def reslice_def whole_def PageSize_def)

lemma NewNode_full: "length page = PageSize \<Longrightarrow> NewNode page = Inr full_node"
  by (simp add: NewNode_page full_node_def)

lemma NewLeaf_page:
  assumes "length page = PageSize" and "NewNode page = Inr node"
  shows "NewLeaf page node =
           (if take 8 page \<noteq> LeafNodeType then (Inl InvalidNodeType, page)
            else (Inr leaf_view, Leaf_reset page leaf_view))"
proof -
  have node: "node = \<lparr>node_header = \<lparr>nodeType = \<lparr>offset = 0, extent = 8\<rparr>\<rparr>,
                      node_body = \<lparr>offset = 8, extent = 4088\<rparr>\<rparr>"
    using assms NewNode_page [of page] by simp
  show ?thesis
    by (simp add: node NewLeaf_def bytes_of_def reslice_def PageSize_def leaf_view_def Let_def)
qed

text \<open>What \<^verbatim>\<open>Leaf.reset\<close> leaves in each field of a page, and what it does not touch.\<close>

lemma Leaf_reset_page:
  assumes "length page = PageSize"
  shows "length (Leaf_reset page leaf_view) = PageSize"
    and "bytes_of (Leaf_reset page leaf_view) (prevID (leaf_header leaf_view)) = to8Bytes InvalidPageID"
    and "bytes_of (Leaf_reset page leaf_view) (nextID (leaf_header leaf_view)) = to8Bytes InvalidPageID"
    and "bytes_of (Leaf_reset page leaf_view) (numSlot (slot_header (leaf_body leaf_view))) = to2Bytes 0"
    and "bytes_of (Leaf_reset page leaf_view) (freeSpace (slot_header (leaf_body leaf_view))) = to2Bytes 4068"
    and "take 8 (Leaf_reset page leaf_view) = take 8 page"
    and "drop 28 (Leaf_reset page leaf_view) = drop 28 page"
proof -
  define b1 where "b1 = copy_to page \<lparr>offset = 8, extent = 8\<rparr> (to8Bytes InvalidPageID)"
  define b2 where "b2 = copy_to b1 \<lparr>offset = 16, extent = 8\<rparr> (to8Bytes InvalidPageID)"
  define b3 where "b3 = copy_to b2 \<lparr>offset = 24, extent = 2\<rparr> (to2Bytes 0)"
  define b4 where "b4 = copy_to b3 \<lparr>offset = 26, extent = 2\<rparr> (to2Bytes 4068)"
  have r: "Leaf_reset page leaf_view = b4"
    by (simp add: Leaf_reset_def Slot_reset_def leaf_view_def Let_def b1_def b2_def b3_def b4_def)
  have l8: "length (to8Bytes InvalidPageID) = 8" and l2: "length (to2Bytes w) = 2" for w
    by (simp_all add: to8Bytes_def to2Bytes_def length_put_le)
  have n1: "length b1 = 4096"
    using assms by (simp add: b1_def length_copy_to PageSize_def)
  have n2: "length b2 = 4096"
    using n1 by (simp add: b2_def length_copy_to)
  have n3: "length b3 = 4096"
    using n2 by (simp add: b3_def length_copy_to)
  have n4: "length b4 = 4096"
    using n3 by (simp add: b4_def length_copy_to)
  show "length (Leaf_reset page leaf_view) = PageSize"
    by (simp add: r n4 PageSize_def)
  have "bytes_of b4 \<lparr>offset = 8, extent = 8\<rparr> = bytes_of b1 \<lparr>offset = 8, extent = 8\<rparr>"
    using n1 n2 n3
    by (simp add: b4_def b3_def b2_def bytes_of_copy_to_other l8 l2)
  also have "\<dots> = to8Bytes InvalidPageID"
    using assms by (simp add: b1_def bytes_of_copy_to_same l8 PageSize_def)
  finally show "bytes_of (Leaf_reset page leaf_view) (prevID (leaf_header leaf_view)) = to8Bytes InvalidPageID"
    unfolding r by (simp add: leaf_view_def)
  have "bytes_of b4 \<lparr>offset = 16, extent = 8\<rparr> = bytes_of b2 \<lparr>offset = 16, extent = 8\<rparr>"
    using n2 n3 by (simp add: b4_def b3_def bytes_of_copy_to_other l2)
  also have "\<dots> = to8Bytes InvalidPageID"
    using n1 by (simp add: b2_def bytes_of_copy_to_same l8)
  finally show "bytes_of (Leaf_reset page leaf_view) (nextID (leaf_header leaf_view)) = to8Bytes InvalidPageID"
    unfolding r by (simp add: leaf_view_def)
  have "bytes_of b4 \<lparr>offset = 24, extent = 2\<rparr> = bytes_of b3 \<lparr>offset = 24, extent = 2\<rparr>"
    using n3 by (simp add: b4_def bytes_of_copy_to_other l2)
  also have "\<dots> = to2Bytes 0"
    using n2 by (simp add: b3_def bytes_of_copy_to_same l2)
  finally show "bytes_of (Leaf_reset page leaf_view) (numSlot (slot_header (leaf_body leaf_view))) = to2Bytes 0"
    unfolding r by (simp add: leaf_view_def)
  have "bytes_of b4 \<lparr>offset = 26, extent = 2\<rparr> = to2Bytes 4068"
    using n3 by (simp add: b4_def bytes_of_copy_to_same l2)
  then show "bytes_of (Leaf_reset page leaf_view) (freeSpace (slot_header (leaf_body leaf_view))) = to2Bytes 4068"
    unfolding r by (simp add: leaf_view_def)
  show "take 8 (Leaf_reset page leaf_view) = take 8 page"
    using assms n1 n2 n3
    by (simp add: r b4_def b3_def b2_def b1_def take_copy_to l8 l2 PageSize_def)
  show "drop 28 (Leaf_reset page leaf_view) = drop 28 page"
    using assms n1 n2 n3
    by (simp add: r b4_def b3_def b2_def b1_def drop_copy_to l8 l2 PageSize_def)
qed

lemma new_leaf_reads:
  assumes "length page = PageSize" and "take 8 page = LeafNodeType"
  defines "buf \<equiv> Leaf_reset page leaf_view"
  shows "GetNodeType buf full_node = LeafNodeType"
    and "GetPrevID buf leaf_view = - 1" and "GetNextID buf leaf_view = - 1"
    and "GetNumSlots buf leaf_view = Inr 0" and "GetFreeSpace buf leaf_view = Inr 4068"
proof -
  note r = Leaf_reset_page [OF assms(1)]
  show "GetNodeType buf full_node = LeafNodeType"
    using r(6) assms(2) by (simp add: buf_def GetNodeType_def full_node_def bytes_of_def)
  show "GetPrevID buf leaf_view = - 1"
    unfolding buf_def by (simp only: GetPrevID_def r toPageID_to8Bytes InvalidPageID_def)
  show "GetNextID buf leaf_view = - 1"
    unfolding buf_def by (simp only: GetNextID_def r toPageID_to8Bytes InvalidPageID_def)
  show "GetNumSlots buf leaf_view = Inr 0"
    unfolding buf_def by (simp only: GetNumSlots_def r Uint16_to2Bytes)
  show "GetFreeSpace buf leaf_view = Inr 4068"
    unfolding buf_def by (simp only: GetFreeSpace_def r Uint16_to2Bytes)
qed

lemma GetRootID_page:
  "length page = PageSize \<Longrightarrow> NewMeta page = Inr m \<Longrightarrow> GetRootID page m = toPageID (take 8 page)"
  using NewMeta_page [of page] by (auto simp: GetRootID_def bytes_of_def)

lemma SetRootID_page:
  assumes "length page = PageSize" and "NewMeta page = Inr m"
  shows "SetRootID page m r =
           (if r \<le>s - 1 then (Some InvalidPageIDErr, page)
            else (None, to8Bytes r @ drop 8 page))"
proof -
  have m: "m = meta_view"
    using assms NewMeta_view [of page] by simp
  have "length (to8Bytes r) = 8"
    by (simp add: to8Bytes_def length_put_le)
  then show ?thesis
    by (simp add: m meta_view_def SetRootID_def copy_to_def InvalidPageID_def)
qed




lemma le_nat_high_bytes: "le_nat high_bytes = 2 ^ 63"
  by (simp add: high_bytes_def)

lemma sint_high_bytes: "sint (toPageID high_bytes) = - (2 ^ 63)"
proof -
  have "length high_bytes = 8" by (simp add: high_bytes_def)
  then show ?thesis
    by (simp add: sint_toPageID(2) le_nat_high_bytes)
qed

lemma length_high_page: "length high_page = PageSize"
  by (simp add: high_page_def high_bytes_def PageSize_def)

lemma length_leaf_page: "length leaf_page = PageSize"
  by (simp add: leaf_page_def PageSize_def LeafNodeType_def)

lemma high_page_fields:
  "take 8 high_page = high_bytes"
  "take 8 (drop 8 high_page) = high_bytes"
  "take 8 (drop 16 high_page) = high_bytes"
  by (simp_all add: high_page_def high_bytes_def)

section \<open>The page layout: identifiers, Meta, Node and Leaf\<close>

text \<open>
  Claim C4. For the node of a 4096-byte page, whose tag is the first 8 bytes of the page:
  \<^verbatim>\<open>NewLeaf\<close> fails with the invalid-node-type error, leaving the page as it is, when
  the tag is not \<^verbatim>\<open>"LEAF    "\<close>; when it is, \<^verbatim>\<open>NewLeaf\<close> succeeds and, whatever the body
  held before, the leaf reads \<open>GetPrevID = -1\<close>, \<open>GetNextID = -1\<close>, \<open>GetNumSlots = 0\<close> and
  \<open>GetFreeSpace = 4068\<close>, the length of the slot body.
\<close>

theorem NewLeaf_tag_check_and_reset:
  assumes "length page = PageSize" and "NewNode page = Inr node"
  shows "GetNodeType page node = take 8 page \<and>
         (take 8 page \<noteq> LeafNodeType \<longrightarrow> NewLeaf page node = (Inl InvalidNodeType, page)) \<and>
         (take 8 page = LeafNodeType \<longrightarrow>
            (\<exists>leaf page'. NewLeaf page node = (Inr leaf, page') \<and>
               GetPrevID page' leaf = - 1 \<and> GetNextID page' leaf = - 1 \<and>
               GetNumSlots page' leaf = Inr 0 \<and> GetFreeSpace page' leaf = Inr 4068 \<and>
               extent (slot_body (leaf_body leaf)) = 4068))"
proof (intro conjI impI)
  show "GetNodeType page node = take 8 page"
    using assms NewNode_page [of page] by (auto simp: GetNodeType_def bytes_of_def)
  show "NewLeaf page node = (Inl InvalidNodeType, page)" if "take 8 page \<noteq> LeafNodeType"
    using that by (simp add: NewLeaf_page [OF assms])
next
  assume "take 8 page = LeafNodeType"
  then have nl: "NewLeaf page node = (Inr leaf_view, Leaf_reset page leaf_view)"
    by (simp add: NewLeaf_page [OF assms])
  note r = Leaf_reset_page [OF assms(1)]
  have "GetPrevID (Leaf_reset page leaf_view) leaf_view = - 1"
    by (simp only: GetPrevID_def r toPageID_to8Bytes InvalidPageID_def)
  moreover have "GetNextID (Leaf_reset page leaf_view) leaf_view = - 1"
    by (simp only: GetNextID_def r toPageID_to8Bytes InvalidPageID_def)
  moreover have "GetNumSlots (Leaf_reset page leaf_view) leaf_view = Inr 0"
    by (simp only: GetNumSlots_def r Uint16_to2Bytes)
  moreover have "GetFreeSpace (Leaf_reset page leaf_view) leaf_view = Inr 4068"
    by (simp only: GetFreeSpace_def r Uint16_to2Bytes)
  moreover have "extent (slot_body (leaf_body leaf_view)) = 4068"
    by (simp add: leaf_view_def)
  ultimately show "\<exists>leaf page'. NewLeaf page node = (Inr leaf, page') \<and>
               GetPrevID page' leaf = - 1 \<and> GetNextID page' leaf = - 1 \<and>
               GetNumSlots page' leaf = Inr 0 \<and> GetFreeSpace page' leaf = Inr 4068 \<and>
               extent (slot_body (leaf_body leaf)) = 4068"
    using nl by blast
qed

text \<open>
  Claim C4 at a page tagged \<^verbatim>\<open>"LEAF    "\<close> with a body of \<open>0xAB\<close> bytes, and at a page
  with another tag.
\<close>

theorem NewLeaf_tag_check_and_reset_witness:
  "length leaf_page = PageSize \<and> NewNode leaf_page = Inr full_node \<and>
   take 8 leaf_page = LeafNodeType \<and>
   (\<exists>leaf page'. NewLeaf leaf_page full_node = (Inr leaf, page') \<and>
      GetPrevID page' leaf = - 1 \<and> GetNextID page' leaf = - 1 \<and>
      GetNumSlots page' leaf = Inr 0 \<and> GetFreeSpace page' leaf = Inr 4068 \<and>
      extent (slot_body (leaf_body leaf)) = 4068) \<and>
   length high_page = PageSize \<and> NewNode high_page = Inr full_node \<and>
   take 8 high_page \<noteq> LeafNodeType \<and>
   NewLeaf high_page full_node = (Inl InvalidNodeType, high_page)"
proof -
  have a: "take 8 leaf_page = LeafNodeType"
    by (simp add: leaf_page_def LeafNodeType_def)
  have b: "take 8 high_page \<noteq> LeafNodeType"
    by (simp add: high_page_def high_bytes_def LeafNodeType_def)
  show ?thesis
    using NewLeaf_tag_check_and_reset [OF length_leaf_page NewNode_full [OF length_leaf_page]]
      NewLeaf_tag_check_and_reset [OF length_high_page NewNode_full [OF length_high_page]]
      a b length_leaf_page length_high_page
      NewNode_full [OF length_leaf_page] NewNode_full [OF length_high_page]
    by simp
qed

text \<open>
  Claim C7. On the Meta view of a 4096-byte page \<^verbatim>\<open>SetRootID r\<close> fails for every
  \<open>r \<le> -1\<close> and succeeds for every \<open>r \<ge> 0\<close>; on success the first 8 bytes of the page
  are \<open>r\<close> in little-endian order (their little-endian number is the unsigned value of
  \<open>r\<close>) and \<^verbatim>\<open>GetRootID\<close> returns \<open>r\<close>.
\<close>

theorem SetRootID_GetRootID_roundtrip:
  assumes "length page = PageSize" and "NewMeta page = Inr m"
  shows "(r \<le>s - 1 \<longrightarrow> fst (SetRootID page m r) = Some InvalidPageIDErr) \<and>
         (0 \<le>s r \<longrightarrow>
            (\<exists>page'. SetRootID page m r = (None, page') \<and>
               take 8 page' = put_le 8 r \<and> le_nat (take 8 page') = unat r \<and>
               GetRootID page' m = r))"
proof (intro conjI impI)
  show "fst (SetRootID page m r) = Some InvalidPageIDErr" if "r \<le>s - 1"
    using that by (simp add: SetRootID_page [OF assms])
next
  assume "0 \<le>s r"
  then have ok: "SetRootID page m r = (None, to8Bytes r @ drop 8 page)"
    by (simp add: SetRootID_page [OF assms] sle_cases)
  have l: "length (to8Bytes r) = 8"
    by (simp add: to8Bytes_def length_put_le)
  have t: "take 8 (to8Bytes r @ drop 8 page) = to8Bytes r"
    by (simp add: l)
  have m: "m = meta_view"
    using assms NewMeta_view [of page] by simp
  have "GetRootID (to8Bytes r @ drop 8 page) m = r"
    by (simp add: m meta_view_def GetRootID_def bytes_of_def l toPageID_to8Bytes)
  with ok t show "\<exists>page'. SetRootID page m r = (None, page') \<and>
               take 8 page' = put_le 8 r \<and> le_nat (take 8 page') = unat r \<and>
               GetRootID page' m = r"
    by (simp add: le_nat_to8Bytes) (simp add: to8Bytes_def)
qed

text \<open>
  Claim C7 at the identifiers \<open>-5\<close> (rejected) and \<open>7\<close> (stored as \<open>07 00 00 00 00 00 00 00\<close>).
\<close>

theorem SetRootID_GetRootID_roundtrip_witness:
  "length high_page = PageSize \<and> NewMeta high_page = Inr meta_view \<and>
   (- 5 :: 64 word) \<le>s - 1 \<and> fst (SetRootID high_page meta_view (- 5)) = Some InvalidPageIDErr \<and>
   (0 :: 64 word) \<le>s 7 \<and>
   fst (SetRootID high_page meta_view 7) = None \<and>
   take 8 (snd (SetRootID high_page meta_view 7)) = [7, 0, 0, 0, 0, 0, 0, 0] \<and>
   GetRootID (snd (SetRootID high_page meta_view 7)) meta_view = 7"
proof -
  note t = SetRootID_GetRootID_roundtrip [OF length_high_page NewMeta_view [OF length_high_page]]
  have a: "(- 5 :: 64 word) \<le>s - 1" and b: "(0 :: 64 word) \<le>s 7"
    by (simp_all add: word_sle_eq)
  from t [of "- 5"] a have c: "fst (SetRootID high_page meta_view (- 5)) = Some InvalidPageIDErr"
    by (rule conjunct1 [THEN mp])
  from t [of 7] b have "\<exists>page'. SetRootID high_page meta_view 7 = (None, page') \<and>
      take 8 page' = put_le 8 (7 :: 64 word) \<and> le_nat (take 8 page') = unat (7 :: 64 word) \<and>
      GetRootID page' meta_view = 7"
    by (rule conjunct2 [THEN mp])
  then obtain page' where p: "SetRootID high_page meta_view 7 = (None, page')"
    and q: "take 8 page' = put_le 8 (7 :: 64 word)" and r: "GetRootID page' meta_view = 7"
    by (elim exE conjE)
  have d: "fst (SetRootID high_page meta_view 7) = None"
    and e: "take 8 (snd (SetRootID high_page meta_view 7)) = [7, 0, 0, 0, 0, 0, 0, 0]"
    and f: "GetRootID (snd (SetRootID high_page meta_view 7)) meta_view = 7"
    by (simp_all only: p fst_conv snd_conv q r put_le_8_7)
  from length_high_page NewMeta_view [OF length_high_page] a c b d e f show ?thesis
    by (intro conjI)
qed

text \<open>
  Claim C8. The views of a 4096-byte page sit at fixed offsets: the node tag is page bytes
  \<open>[0:8)\<close> and the node body \<open>[8:4096)\<close>; in a leaf \<open>prevID\<close> is \<open>[8:16)\<close>, \<open>nextID\<close>
  \<open>[16:24)\<close>, the slot count \<open>[24:26)\<close>, the free-space counter \<open>[26:28)\<close> and the record
  region \<open>[28:4096)\<close>. Both sibling identifiers of a new leaf are \<open>-1\<close>, and on every
  later content \<open>q\<close> of the page the accessors return the little-endian values of exactly
  those bytes.
\<close>

theorem leaf_layout_offsets:
  assumes "length page = PageSize" and "NewNode page = Inr node"
    and "fst (NewLeaf page node) = Inr leaf" and "length q = PageSize"
  shows "GetPrevID (snd (NewLeaf page node)) leaf = - 1 \<and>
         GetNextID (snd (NewLeaf page node)) leaf = - 1 \<and>
         nodeType (node_header node) = \<lparr>offset = 0, extent = 8\<rparr> \<and>
         node_body node = \<lparr>offset = 8, extent = 4088\<rparr> \<and>
         prevID (leaf_header leaf) = \<lparr>offset = 8, extent = 8\<rparr> \<and>
         nextID (leaf_header leaf) = \<lparr>offset = 16, extent = 8\<rparr> \<and>
         numSlot (slot_header (leaf_body leaf)) = \<lparr>offset = 24, extent = 2\<rparr> \<and>
         freeSpace (slot_header (leaf_body leaf)) = \<lparr>offset = 26, extent = 2\<rparr> \<and>
         slot_body (leaf_body leaf) = \<lparr>offset = 28, extent = 4068\<rparr> \<and>
         GetNodeType q node = take 8 q \<and>
         GetPrevID q leaf = toPageID (take 8 (drop 8 q)) \<and>
         uint (GetPrevID q leaf) = int (le_nat (take 8 (drop 8 q))) \<and>
         GetNextID q leaf = toPageID (take 8 (drop 16 q)) \<and>
         uint (GetNextID q leaf) = int (le_nat (take 8 (drop 16 q))) \<and>
         (\<exists>w. GetNumSlots q leaf = Inr w \<and> unat w = le_nat (take 2 (drop 24 q))) \<and>
         (\<exists>w. GetFreeSpace q leaf = Inr w \<and> unat w = le_nat (take 2 (drop 26 q))) \<and>
         bytes_of q (slot_body (leaf_body leaf)) = drop 28 q"
proof -
  have node: "node = full_node"
    using assms(1,2) NewNode_full [of page] by simp
  have leaf: "leaf = leaf_view"
    using assms(3) by (simp add: NewLeaf_page [OF assms(1,2)] split: if_splits)
  have q: "length q = 4096"
    using assms(4) by (simp add: PageSize_def)
  have l8: "length (take 8 (drop k q)) = 8" if "k \<le> 4088" for k
    using that q by simp
  have l2: "length (take 2 (drop k q)) = 2" if "k \<le> 4094" for k
    using that q by simp
  have u16: "unat (le_word (take 2 (drop k q)) :: 16 word) = le_nat (take 2 (drop k q))"
    if "k \<le> 4094" for k
    by (rule unat_le_word) (simp add: l2 [OF that])
  have tag: "take 8 page = LeafNodeType"
    using assms(3) by (simp add: NewLeaf_page [OF assms(1,2)] split: if_splits)
  then have nl: "snd (NewLeaf page node) = Leaf_reset page leaf_view"
    by (simp add: NewLeaf_page [OF assms(1,2)])
  have new: "GetPrevID (snd (NewLeaf page node)) leaf = - 1 \<and>
             GetNextID (snd (NewLeaf page node)) leaf = - 1"
    unfolding nl leaf using new_leaf_reads(2,3) [OF assms(1) tag] by (rule conjI)
  have fields: "nodeType (node_header node) = \<lparr>offset = 0, extent = 8\<rparr> \<and>
         node_body node = \<lparr>offset = 8, extent = 4088\<rparr> \<and>
         prevID (leaf_header leaf) = \<lparr>offset = 8, extent = 8\<rparr> \<and>
         nextID (leaf_header leaf) = \<lparr>offset = 16, extent = 8\<rparr> \<and>
         numSlot (slot_header (leaf_body leaf)) = \<lparr>offset = 24, extent = 2\<rparr> \<and>
         freeSpace (slot_header (leaf_body leaf)) = \<lparr>offset = 26, extent = 2\<rparr> \<and>
         slot_body (leaf_body leaf) = \<lparr>offset = 28, extent = 4068\<rparr> \<and>
         GetNodeType q node = take 8 q \<and>
         GetPrevID q leaf = toPageID (take 8 (drop 8 q)) \<and>
         uint (GetPrevID q leaf) = int (le_nat (take 8 (drop 8 q))) \<and>
         GetNextID q leaf = toPageID (take 8 (drop 16 q)) \<and>
         uint (GetNextID q leaf) = int (le_nat (take 8 (drop 16 q))) \<and>
         (\<exists>w. GetNumSlots q leaf = Inr w \<and> unat w = le_nat (take 2 (drop 24 q))) \<and>
         (\<exists>w. GetFreeSpace q leaf = Inr w \<and> unat w = le_nat (take 2 (drop 26 q))) \<and>
         bytes_of q (slot_body (leaf_body leaf)) = drop 28 q"
    unfolding node leaf
    apply (intro conjI)
                  apply (simp_all add: full_node_def leaf_view_def GetNodeType_def GetPrevID_def
        GetNextID_def GetNumSlots_def GetFreeSpace_def bytes_of_def sint_toPageID(1) l8 l2
        Uint16_def u16 q)
    done
  show ?thesis
    by (rule conjI [OF conjunct1 [OF new] conjI [OF conjunct2 [OF new] fields]])
qed

text \<open>
  Claim C8 at the views of a leaf page, read on a page whose three first 8-byte fields
  encode \<open>2^63\<close>.
\<close>

theorem leaf_layout_offsets_witness:
  "length leaf_page = PageSize \<and> NewNode leaf_page = Inr full_node \<and>
   fst (NewLeaf leaf_page full_node) = Inr leaf_view \<and> length high_page = PageSize \<and>
   GetNodeType high_page full_node = high_bytes \<and>
   GetPrevID high_page leaf_view = toPageID high_bytes \<and>
   GetNextID high_page leaf_view = toPageID high_bytes \<and>
   GetNumSlots high_page leaf_view = Inr 0 \<and>
   GetFreeSpace high_page leaf_view = Inr 0"
proof -
  have a: "fst (NewLeaf leaf_page full_node) = Inr leaf_view"
    by (simp add: NewLeaf_page [OF length_leaf_page NewNode_full [OF length_leaf_page]])
       (simp add: leaf_page_def LeafNodeType_def)
  have b: "take 2 (drop 24 high_page) = [0, 0]" "take 2 (drop 26 high_page) = [0, 0]"
    by (simp_all add: high_page_def high_bytes_def) (simp_all add: numeral_2_eq_2)
  have c: "w = 0" if "unat (w :: 16 word) = 0" for w
    using that by (simp add: unat_eq_0)
  show ?thesis
    using leaf_layout_offsets [OF length_leaf_page NewNode_full [OF length_leaf_page] a length_high_page]
      a length_leaf_page length_high_page NewNode_full [OF length_leaf_page]
    by (auto simp: high_page_fields b dest: c)
qed

text \<open>
  Claim C9. \<^verbatim>\<open>toPageID\<close> returns the invalid identifier \<open>-1\<close> for every byte slice whose
  length is not 8. On 8 bytes its unsigned value is the little-endian number of the bytes
  and its signed value that number reinterpreted in two's complement, so 8 bytes that
  encode \<open>2^63\<close> or more decode to a negative identifier. Consequently there are pages on
  which \<^verbatim>\<open>GetRootID\<close>, \<^verbatim>\<open>GetPrevID\<close> and \<^verbatim>\<open>GetNextID\<close> return a negative identifier
  other than \<open>-1\<close>, one that \<^verbatim>\<open>SetRootID\<close> itself rejects.
\<close>

theorem toPageID_reinterprets:
  "(length b \<noteq> 8 \<longrightarrow> toPageID b = - 1) \<and>
   (length b = 8 \<longrightarrow>
      uint (toPageID b) = int (le_nat b) \<and>
      sint (toPageID b) = (if le_nat b < 2 ^ 63 then int (le_nat b) else int (le_nat b) - 2 ^ 64) \<and>
      (2 ^ 63 \<le> le_nat b \<longrightarrow> sint (toPageID b) < 0)) \<and>
   (\<exists>page m. length page = PageSize \<and> NewMeta page = Inr m \<and>
      sint (GetRootID page m) < - 1 \<and>
      fst (SetRootID page m (GetRootID page m)) = Some InvalidPageIDErr) \<and>
   (\<exists>page node leaf q. length page = PageSize \<and> NewNode page = Inr node \<and>
      fst (NewLeaf page node) = Inr leaf \<and> length q = PageSize \<and>
      sint (GetPrevID q leaf) < - 1 \<and> sint (GetNextID q leaf) < - 1)"
proof (intro conjI impI)
  show "toPageID b = - 1" if "length b \<noteq> 8"
    using that by (simp add: toPageID_def InvalidPageID_def)
  show "uint (toPageID b) = int (le_nat b)" if "length b = 8"
    using that by (rule sint_toPageID(1))
  show "sint (toPageID b) = (if le_nat b < 2 ^ 63 then int (le_nat b) else int (le_nat b) - 2 ^ 64)"
    if "length b = 8"
    using that by (rule sint_toPageID(2))
  show "sint (toPageID b) < 0" if "length b = 8" and "2 ^ 63 \<le> le_nat b"
  proof -
    have "int (le_nat b) < 2 ^ 64"
      using le_nat_bound [of b] that(1) by simp
    then show ?thesis
      using that by (simp add: sint_toPageID(2))
  qed
  let ?m = "\<lparr>meta_header = \<lparr>rootID = \<lparr>offset = 0, extent = 8\<rparr>\<rparr>\<rparr>"
  have m: "NewMeta high_page = Inr ?m"
    using length_high_page by (rule NewMeta_page)
  have g: "sint (GetRootID high_page ?m) = - (2 ^ 63)"
    by (simp only: GetRootID_page [OF length_high_page m] high_page_fields sint_high_bytes)
  have "GetRootID high_page ?m \<le>s InvalidPageID"
    by (simp only: word_sle_eq g InvalidPageID_def) simp
  then have "fst (SetRootID high_page ?m (GetRootID high_page ?m)) = Some InvalidPageIDErr"
    by (simp add: SetRootID_def)
  with m g length_high_page
  show "\<exists>page m. length page = PageSize \<and> NewMeta page = Inr m \<and>
      sint (GetRootID page m) < - 1 \<and>
      fst (SetRootID page m (GetRootID page m)) = Some InvalidPageIDErr"
    by (intro exI [of _ high_page] exI [of _ ?m]) simp
  let ?node = "\<lparr>node_header = \<lparr>nodeType = \<lparr>offset = 0, extent = 8\<rparr>\<rparr>,
                 node_body = \<lparr>offset = 8, extent = 4088\<rparr>\<rparr>"
  have n: "NewNode leaf_page = Inr ?node"
    using length_leaf_page by (rule NewNode_page)
  have l: "fst (NewLeaf leaf_page ?node) = Inr leaf_view"
    by (simp add: NewLeaf_page [OF length_leaf_page n]) (simp add: leaf_page_def LeafNodeType_def)
  have p: "sint (GetPrevID high_page leaf_view) = - (2 ^ 63)"
    by (simp add: GetPrevID_def leaf_view_def bytes_of_def high_page_fields sint_high_bytes)
  have q: "sint (GetNextID high_page leaf_view) = - (2 ^ 63)"
    by (simp add: GetNextID_def leaf_view_def bytes_of_def high_page_fields sint_high_bytes)
  from n l p q length_leaf_page length_high_page
  show "\<exists>page node leaf q. length page = PageSize \<and> NewNode page = Inr node \<and>
      fst (NewLeaf page node) = Inr leaf \<and> length q = PageSize \<and>
      sint (GetPrevID q leaf) < - 1 \<and> sint (GetNextID q leaf) < - 1"
    by (intro exI [of _ leaf_page] exI [of _ ?node] exI [of _ leaf_view] exI [of _ high_page]) simp
qed

text \<open>
  Claim C9 at a 3-byte slice and at the 8 bytes that encode \<open>2^63\<close>.
\<close>

theorem toPageID_reinterprets_witness:
  "length [1, 2, 3 :: byte] \<noteq> 8 \<and> toPageID [1, 2, 3] = - 1 \<and>
   length high_bytes = 8 \<and> 2 ^ 63 \<le> le_nat high_bytes \<and> sint (toPageID high_bytes) < 0"
  using toPageID_reinterprets [of "[1, 2, 3]"] toPageID_reinterprets [of high_bytes]
  by (simp add: high_bytes_def)

text \<open>
  Claim C10. The Meta view holds a window onto bytes \<open>[0:8)\<close> of the page buffer, not a
  copy: a successful \<^verbatim>\<open>SetRootID r\<close> (\<open>r \<ge> 0\<close>) leaves a buffer of the same length whose
  first 8 bytes are the encoding of \<open>r\<close> and whose bytes \<open>[8:4096)\<close> are unchanged; a
  rejected one (\<open>r \<le> -1\<close>) leaves the whole buffer unchanged.
\<close>

theorem SetRootID_frame:
  assumes "length page = PageSize" and "NewMeta page = Inr m"
  shows "rootID (meta_header m) = \<lparr>offset = 0, extent = 8\<rparr> \<and>
         (0 \<le>s r \<longrightarrow>
            fst (SetRootID page m r) = None \<and>
            length (snd (SetRootID page m r)) = length page \<and>
            take 8 (snd (SetRootID page m r)) = to8Bytes r \<and>
            drop 8 (snd (SetRootID page m r)) = drop 8 page) \<and>
         (r \<le>s - 1 \<longrightarrow> snd (SetRootID page m r) = page)"
proof -
  have m: "m = meta_view"
    using assms NewMeta_view [of page] by simp
  have l: "length (to8Bytes r) = 8"
    by (simp add: to8Bytes_def length_put_le)
  have s: "SetRootID page m r =
           (if r \<le>s - 1 then (Some InvalidPageIDErr, page) else (None, to8Bytes r @ drop 8 page))"
    by (rule SetRootID_page [OF assms])
  show ?thesis
    unfolding s using assms(1) by (auto simp: sle_cases l PageSize_def m meta_view_def)
qed

text \<open>
  Claim C10 at the identifier \<open>258\<close> on a page whose body is all \<open>0xAB\<close>, and at \<open>-1\<close>.
\<close>

theorem SetRootID_frame_witness:
  "length leaf_page = PageSize \<and> NewMeta leaf_page = Inr meta_view \<and>
   (0 :: 64 word) \<le>s 258 \<and>
   fst (SetRootID leaf_page meta_view 258) = None \<and>
   length (snd (SetRootID leaf_page meta_view 258)) = length leaf_page \<and>
   take 8 (snd (SetRootID leaf_page meta_view 258)) = [2, 1, 0, 0, 0, 0, 0, 0] \<and>
   drop 8 (snd (SetRootID leaf_page meta_view 258)) = replicate 4088 0xAB \<and>
   (- 1 :: 64 word) \<le>s - 1 \<and> snd (SetRootID leaf_page meta_view (- 1)) = leaf_page"
proof -
  note t = SetRootID_frame [OF length_leaf_page NewMeta_view [OF length_leaf_page]]
  have a: "(0 :: 64 word) \<le>s 258" and b: "(- 1 :: 64 word) \<le>s - 1"
    by (simp_all add: word_sle_eq)
  have d: "drop 8 leaf_page = replicate 4088 0xAB"
    by (simp add: leaf_page_def LeafNodeType_def)
  from t [of 258] a have
    "fst (SetRootID leaf_page meta_view 258) = None \<and>
     length (snd (SetRootID leaf_page meta_view 258)) = length leaf_page \<and>
     take 8 (snd (SetRootID leaf_page meta_view 258)) = to8Bytes 258 \<and>
     drop 8 (snd (SetRootID leaf_page meta_view 258)) = drop 8 leaf_page"
    by (rule conjunct2 [THEN conjunct1, THEN mp])
  moreover from t [of "- 1"] b have "snd (SetRootID leaf_page meta_view (- 1)) = leaf_page"
    by (rule conjunct2 [THEN conjunct2, THEN mp])
  ultimately show ?thesis
    using a b length_leaf_page NewMeta_view [OF length_leaf_page]
    by (simp only: to8Bytes_258 d)
qed

section \<open>Facts about the disk manager\<close>

lemma small_id_unat:
  assumes "0 \<le>s (pageID :: PageID)" and "pageID <s 2 ^ 51"
  shows "unat pageID < 2 ^ 51"
proof -
  have "sint pageID < 2 ^ 51"
    using assms(2) by (simp add: word_sless_alt)
  then have "int (unat pageID) < 2 ^ 51"
    by (simp only: sge0_unat(2) [OF assms(1)])
  then show ?thesis
    by (simp only: of_nat_less_numeral_power_cancel_iff)
qed

text \<open>Below \<open>2^51\<close> the byte offset of a page does not wrap around.\<close>

lemma page_offset:
  assumes "unat (pageID :: PageID) < 2 ^ 51"
  shows "sint (pageID * word_of_nat PageSize) = int (unat pageID * 4096)"
proof -
  have "unat pageID * 4096 < 2 ^ 51 * 4096"
    using assms by simp
  then have lt: "unat pageID * 4096 < 2 ^ 63"
    by simp
  have "unat (pageID * 4096) = unat pageID * 4096 mod 2 ^ 64"
    by (simp add: unat_word_ariths)
  also have "\<dots> = unat pageID * 4096"
    using lt by simp
  finally have u: "unat (pageID * 4096) = unat pageID * 4096" .
  have "sint (pageID * 4096) = int (unat (pageID * 4096))"
    using lt by (simp only: sint_unat64 [of "pageID * 4096"] u if_True)
  then show ?thesis
    by (simp add: PageSize_def u)
qed

lemma not_sle_InvalidID: "0 \<le>s (pageID :: PageID) \<Longrightarrow> \<not> pageID \<le>s InvalidID"
  by (simp add: word_sle_eq InvalidID_def)

lemma sle_InvalidID: "pageID \<le>s - 1 \<Longrightarrow> pageID \<le>s InvalidID"
  by (simp add: InvalidID_def)

lemma checkSeek_valid:
  assumes "length b = PageSize" and "0 \<le>s pageID" and "pageID <s 2 ^ 51"
  shows "checkSeek m pageID b = (None, m\<lparr>heap := (heap m)\<lparr>pos := unat pageID * 4096\<rparr>\<rparr>)"
proof -
  have "sint (pageID * word_of_nat PageSize) = int (unat pageID * 4096)"
    by (rule page_offset [OF small_id_unat [OF assms(2,3)]])
  then have "\<not> sint (pageID * word_of_nat PageSize) < 0"
    and "nat (sint (pageID * word_of_nat PageSize)) = unat pageID * 4096"
    by (simp_all only: nat_int of_nat_0_le_iff not_less)
  then have "Seek (heap m) (pageID * word_of_nat PageSize) = Inr ((heap m)\<lparr>pos := unat pageID * 4096\<rparr>)"
    by (simp only: Seek_def if_False)
  then show ?thesis
    using assms(1) not_sle_InvalidID [OF assms(2)] by (simp add: checkSeek_def)
qed

lemma Write_within:
  assumes "pos f + length b \<le> MaxOffset"
  shows "Write f b =
           ((length b, None),
            f\<lparr>contents := take (pos f) (contents f @ replicate (pos f - length (contents f)) 0) @ b @
                           drop (pos f + length b)
                             (contents f @ replicate (pos f - length (contents f)) 0),
              pos := pos f + length b\<rparr>)"
  using assms by (simp add: Write_def Let_def)

lemma Write_refused:
  assumes "MaxOffset < pos f + length b"
  shows "Write f b = ((0, Some EINVAL), f)"
  using assms by (simp add: Write_def)

lemma Read_after_Write:
  assumes "length b = length b'" and "pos g = pos f" and "b \<noteq> []"
    and "pos f + length b \<le> MaxOffset"
  shows "Read ((snd (Write f b))\<lparr>pos := pos g\<rparr>) b' =
           ((length b, None), (snd (Write f b))\<lparr>pos := pos f + length b\<rparr>, b)"
proof -
  define padded where "padded = contents f @ replicate (pos f - length (contents f)) 0"
  have lp: "pos f \<le> length padded"
    by (simp add: padded_def)
  define c where "c = take (pos f) padded @ b @ drop (pos f + length b) padded"
  have w: "snd (Write f b) = f\<lparr>contents := c, pos := pos f + length b\<rparr>"
    by (simp add: Write_within [OF assms(4)] padded_def c_def)
  have lt: "length (take (pos f) padded) = pos f"
    using lp by simp
  have d: "drop (pos f) c = b @ drop (pos f + length b) padded"
    unfolding c_def using lt by simp
  have lc: "pos f + length b \<le> length c"
    unfolding c_def using lt by simp
  have n: "min (length b') (length c - pos f) = length b"
    using lc assms(1) by simp
  have "\<not> length c \<le> pos f"
    using lc assms(3) by (cases b) auto
  moreover have "b' \<noteq> []"
    using assms(1,3) by auto
  ultimately show ?thesis
    using assms(1,2,3) n by (simp add: Read_def w d Let_def)
qed

lemma page_end_offset:
  assumes "0 \<le>s (pageID :: PageID)" and "pageID <s 2 ^ 51 - 1"
  shows "pageID <s 2 ^ 51" and "unat pageID * 4096 + 4096 \<le> MaxOffset"
proof -
  have s: "sint pageID < 2 ^ 51 - 1"
    using assms(2) by (simp add: word_sless_alt)
  then show "pageID <s 2 ^ 51"
    by (simp add: word_sless_alt)
  have "int (unat pageID) < 2 ^ 51 - 1"
    using s by (simp only: sge0_unat(2) [OF assms(1)])
  then have "int (unat pageID) < int (2 ^ 51 - 1)"
    by simp
  then have "unat pageID < 2 ^ 51 - 1"
    by (simp only: of_nat_less_iff)
  then show "unat pageID * 4096 + 4096 \<le> MaxOffset"
    by (simp add: MaxOffset_def)
qed

lemma WritePageData_valid:
  assumes "length b = PageSize" and "0 \<le>s pageID" and "pageID <s 2 ^ 51 - 1"
  shows "WritePageData m pageID b =
           (None, m\<lparr>heap := snd (Write ((heap m)\<lparr>pos := unat pageID * 4096\<rparr>) b)\<rparr>)"
proof -
  note e = page_end_offset [OF assms(2,3)]
  have "pos ((heap m)\<lparr>pos := unat pageID * 4096\<rparr>) + length b \<le> MaxOffset"
    using e(2) assms(1) by (simp add: PageSize_def)
  then show ?thesis
    by (simp add: WritePageData_def checkSeek_valid [OF assms(1,2) e(1)] Write_within)
qed

lemma ReadPageData_valid:
  assumes "length b = PageSize" and "0 \<le>s pageID" and "pageID <s 2 ^ 51"
    and "page_aligned m"
  shows "ReadPageData m pageID b =
           (if unat pageID * 4096 + 4096 \<le> length (contents (heap m))
            then (None, m\<lparr>heap := (heap m)\<lparr>pos := unat pageID * 4096 + 4096\<rparr>\<rparr>,
                  take 4096 (drop (unat pageID * 4096) (contents (heap m))))
            else (Some ReadFailed, m\<lparr>heap := (heap m)\<lparr>pos := unat pageID * 4096\<rparr>\<rparr>, b))"
proof -
  define off where "off = unat pageID * 4096"
  define c where "c = contents (heap m)"
  have cs: "checkSeek m pageID b = (None, m\<lparr>heap := (heap m)\<lparr>pos := off\<rparr>\<rparr>)"
    unfolding off_def by (rule checkSeek_valid [OF assms(1-3)])
  have lb: "length b = 4096"
    using assms(1) by (simp add: PageSize_def)
  have al: "length c mod 4096 = 0"
    using assms(4) by (simp add: page_aligned_def c_def PageSize_def)
  show ?thesis
  proof (cases "off + 4096 \<le> length c")
    case True
    then have "min (length b) (length c - off) = 4096" and "\<not> length c \<le> off"
      using lb by simp_all
    then have "Read ((heap m)\<lparr>pos := off\<rparr>) b =
                 ((4096, None), (heap m)\<lparr>pos := off + 4096\<rparr>, take 4096 (drop off c))"
      using lb by (simp add: Read_def Let_def c_def)
    then show ?thesis
      using True by (simp add: ReadPageData_def cs off_def [symmetric] c_def [symmetric])
  next
    case False
    have "length c \<le> off"
    proof -
      obtain q where q: "length c = 4096 * q"
        using al by (auto simp: mod_eq_0_iff_dvd)
      with False have "q \<le> unat pageID"
        by (simp add: off_def)
      with q show ?thesis
        by (simp add: off_def)
    qed
    then have "Read ((heap m)\<lparr>pos := off\<rparr>) b = ((0, Some EOF), (heap m)\<lparr>pos := off\<rparr>, b)"
      using lb by (auto simp: Read_def c_def)
    then show ?thesis
      using False by (simp add: ReadPageData_def cs off_def [symmetric] c_def [symmetric])
  qed
qed

text \<open>The identifiers of \<open>k\<close> calls, in 64-bit arithmetic.\<close>

lemma allocate_times_eq:
  "allocate_times k m =
     (map (\<lambda>i. (fm_nextID m + word_of_nat i, None)) [0..<k],
      m\<lparr>fm_nextID := fm_nextID m + word_of_nat k\<rparr>)"
proof (induction k arbitrary: m)
  case 0
  then show ?case by simp
next
  case (Suc k)
  have "map (\<lambda>i. (fm_nextID m + word_of_nat i, None :: error option)) [0..<Suc k] =
        (fm_nextID m, None) # map (\<lambda>i. (fm_nextID m + 1 + word_of_nat i, None)) [0..<k]"
    by (simp only: upt_conv_Cons [OF zero_less_Suc] map_Suc_upt [symmetric] list.map map_map o_def)
       (simp add: ac_simps)
  then show ?case
    by (simp add: Suc AllocateNewPage_def ac_simps del: upt_Suc)
qed

lemma allocate_times_ids:
  "map fst (fst (allocate_times k m)) = map (\<lambda>i. fm_nextID m + word_of_nat i) [0..<k]"
  by (simp add: allocate_times_eq o_def)

lemma sint_id_plus:
  assumes "0 \<le>s (n :: PageID)" and "unat n + k \<le> 2 ^ 63" and "i < k"
  shows "sint (n + word_of_nat i) = int (unat n + i)"
proof -
  have lt: "unat n + i < 2 ^ 63"
    using assms(2,3) by simp
  then have "unat n + i < 2 ^ 64"
    by simp
  have "unat (n + word_of_nat i) = (unat n + i) mod 2 ^ 64"
    by (simp add: unat_word_ariths unat_of_nat mod_simps)
  also have "\<dots> = unat n + i"
    using \<open>unat n + i < 2 ^ 64\<close> by simp
  finally have u: "unat (n + word_of_nat i) = unat n + i" .
  show ?thesis
    using lt by (simp only: sint_unat64 [of "n + word_of_nat i"] u if_True)
qed

lemma sint_plus_upt:
  assumes "0 \<le>s (n :: PageID)" and "unat n + k \<le> 2 ^ 63"
  shows "map (\<lambda>i. sint (n + word_of_nat i)) [0..<k] = map (\<lambda>i. int (unat n + i)) [0..<k]"
  by (rule map_cong [OF refl]) (simp add: sint_id_plus [OF assms])

lemma allocate_times_increasing:
  assumes "0 \<le>s fm_nextID m" and "unat (fm_nextID m) + k \<le> 2 ^ 63"
  shows "map (sint \<circ> fst) (fst (allocate_times k m)) =
           map (\<lambda>i. int (unat (fm_nextID m) + i)) [0..<k]"
    and "sorted_wrt (<s) (map fst (fst (allocate_times k m)))"
    and "distinct (map fst (fst (allocate_times k m)))"
proof -
  have s: "map sint (map fst (fst (allocate_times k m))) =
           map (\<lambda>i. int (unat (fm_nextID m) + i)) [0..<k]"
    unfolding allocate_times_ids using sint_plus_upt [OF assms] by (simp add: o_def)
  then show "map (sint \<circ> fst) (fst (allocate_times k m)) =
             map (\<lambda>i. int (unat (fm_nextID m) + i)) [0..<k]"
    by simp
  have "sorted_wrt (<) (map (\<lambda>i. int (unat (fm_nextID m) + i)) [0..<k])"
    by (simp add: sorted_wrt_map sorted_wrt_iff_nth_less)
  then have sw: "sorted_wrt (<) (map sint (map fst (fst (allocate_times k m))))"
    by (simp only: s)
  then show "sorted_wrt (<s) (map fst (fst (allocate_times k m)))"
    by (simp add: sorted_wrt_map word_sless_alt)
  have "distinct (map sint (map fst (fst (allocate_times k m))))"
    using sw by (simp only: strict_sorted_iff)
  then show "distinct (map fst (fst (allocate_times k m)))"
    using distinct_map [of sint "map fst (fst (allocate_times k m))"] by blast
qed

lemma NewFileManager_eq:
  assumes "length c < 2 ^ 63"
  shows "NewFileManager c =
           (if length c mod PageSize \<noteq> 0 then Inl InvalidHeapSize
            else Inr \<lparr>heap = \<lparr>contents = c, pos = 0\<rparr>,
                      fm_nextID = word_of_nat (length c div PageSize)\<rparr>)"
proof -
  define heapSize :: "64 word" where "heapSize = word_of_nat (length c)"
  have "length c < 2 ^ 64"
    using assms by simp
  then have u: "unat heapSize = length c"
    by (simp add: heapSize_def unat_of_nat)
  have s: "sint heapSize = int (length c)"
    using assms by (simp only: sint_unat64 [of heapSize] u if_True)
  have m: "sint heapSize smod int PageSize = int (length c mod PageSize)"
    by (simp add: s signed_modulo_int_def PageSize_def zmod_int sgn_if)
  have d: "sint heapSize sdiv int PageSize = int (length c div PageSize)"
    by (simp add: s signed_divide_int_def PageSize_def zdiv_int sgn_if)
  have q: "length c div PageSize < 2 ^ 63"
    using assms by (simp add: PageSize_def less_mult_imp_div_less)
  then have "length c div PageSize < 2 ^ 64"
    by simp
  then have "unat (word_of_nat (length c div PageSize) :: 64 word) = length c div PageSize"
    by (simp add: unat_of_nat)
  then have "sint (word_of_nat (length c div PageSize) :: 64 word) = int (length c div PageSize)"
    using q by (simp only: sint_unat64 [of "word_of_nat (length c div PageSize)"] if_True)
  then have n: "\<not> (word_of_nat (length c div PageSize) :: 64 word) \<le>s InvalidID"
    by (simp add: word_sle_eq InvalidID_def)
  show ?thesis
    unfolding NewFileManager_def Let_def heapSize_def [symmetric] m d
    using n by simp
qed

lemma NewFileManager_empty: "NewFileManager [] = Inr fresh_manager"
  by (simp add: NewFileManager_eq fresh_manager_def)

lemma NewFileManager_nextID:
  assumes "length c < 2 ^ 63" and "NewFileManager c = Inr m"
  shows "0 \<le>s fm_nextID m" and "unat (fm_nextID m) = length c div PageSize"
proof -
  have n: "fm_nextID m = word_of_nat (length c div PageSize)"
    using assms(2) unfolding NewFileManager_eq [OF assms(1)] by (auto split: if_splits)
  have q: "length c div PageSize < 2 ^ 63"
    using assms(1) by (simp add: PageSize_def less_mult_imp_div_less)
  then have "length c div PageSize < 2 ^ 64"
    by simp
  then show u: "unat (fm_nextID m) = length c div PageSize"
    by (simp add: n unat_of_nat)
  have "sint (fm_nextID m) = int (length c div PageSize)"
    using q by (simp only: sint_unat64 [of "fm_nextID m"] u if_True)
  then show "0 \<le>s fm_nextID m"
    by (simp add: word_sle_eq)
qed

lemma page_aligned_one_page: "page_aligned one_page_manager"
  by (simp add: page_aligned_def one_page_manager_def PageSize_def)

lemma NewFileManager_page_aligned:
  assumes "length c < 2 ^ 63" and "NewFileManager c = Inr m"
  shows "page_aligned m"
  using assms(2) unfolding NewFileManager_eq [OF assms(1)]
  by (auto simp: page_aligned_def split: if_splits)

lemma AllocateNewPage_page_aligned:
  "page_aligned m \<Longrightarrow> page_aligned (snd (AllocateNewPage m))"
  by (simp add: page_aligned_def AllocateNewPage_def)

lemma Write_length:
  "length (contents (snd (Write f b))) =
     (if MaxOffset < pos f + length b then length (contents f)
      else max (length (contents f)) (pos f + length b))"
  by (auto simp: Write_def Let_def max_def min_def)

text \<open>Offsets and lengths stay within the largest offset.\<close>

lemma Write_bounded:
  assumes "length (contents f) \<le> MaxOffset" and "pos f \<le> MaxOffset"
  shows "length (contents (snd (Write f b))) \<le> MaxOffset" and "pos (snd (Write f b)) \<le> MaxOffset"
  using assms by (auto simp: Write_def Let_def)

lemma Read_bounded:
  assumes "length (contents f) \<le> MaxOffset" and "pos f \<le> MaxOffset"
  shows "pos (fst (snd (Read f b))) \<le> MaxOffset" and "contents (fst (snd (Read f b))) = contents f"
  using assms by (auto simp: Read_def Let_def)

lemma Seek_bounded:
  assumes "Seek f off = Inr g"
  shows "pos g \<le> MaxOffset" and "contents g = contents f"
proof -
  have g: "g = f\<lparr>pos := nat (sint off)\<rparr>"
    using assms by (auto simp: Seek_def split: if_splits)
  have "sint off < 2 ^ 63"
    using sint_lt [of off] by simp
  then show "pos g \<le> MaxOffset"
    by (simp add: g MaxOffset_def)
  show "contents g = contents f"
    by (simp add: g)
qed

lemma wrapped_offset_aligned:
  assumes "\<not> sint ((pageID :: PageID) * 4096) < 0"
  shows "nat (sint (pageID * 4096)) mod 4096 = 0"
proof -
  have "0 \<le>s pageID * 4096"
    using assms by (simp add: word_sle_eq)
  then have "sint (pageID * 4096) = int (unat (pageID * 4096))"
    by (rule sge0_unat(2))
  then have "nat (sint (pageID * 4096)) = unat (pageID * 4096)"
    by (simp only: nat_int)
  also have "\<dots> = unat pageID * 4096 mod 2 ^ 64"
    by (simp add: unat_word_ariths)
  finally have "nat (sint (pageID * 4096)) mod 4096 = unat pageID * 4096 mod 2 ^ 64 mod 4096"
    by simp
  also have "\<dots> = unat pageID * 4096 mod 4096"
    by (rule mod_mod_cancel) simp
  finally show ?thesis
    by simp
qed

text \<open>The heap file stays a whole number of pages: \<^verbatim>\<open>NewFileManager\<close> accepts no other file
  and \<^verbatim>\<open>WritePageData\<close> writes one page at a multiple of the page size.\<close>

lemma WritePageData_page_aligned:
  assumes "page_aligned m"
  shows "page_aligned (snd (WritePageData m pageID b))"
proof (cases "fst (checkSeek m pageID b)")
  case (Some e)
  then show ?thesis
    using assms
    by (auto simp: WritePageData_def checkSeek_def page_aligned_def split: if_splits sum.splits)
next
  case None
  then have lb: "length b = 4096" and ns: "\<not> sint (pageID * 4096) < 0"
    and cs: "checkSeek m pageID b = (None, m\<lparr>heap := (heap m)\<lparr>pos := nat (sint (pageID * 4096))\<rparr>\<rparr>)"
    by (auto simp: checkSeek_def Seek_def PageSize_def split: if_splits sum.splits)
  define off where "off = nat (sint (pageID * 4096))"
  define f where "f = (heap m)\<lparr>pos := off\<rparr>"
  have od: "off mod 4096 = 0"
    unfolding off_def using ns by (rule wrapped_offset_aligned)
  have al: "length (contents (heap m)) mod 4096 = 0"
    using assms by (simp add: page_aligned_def PageSize_def)
  have w: "heap (snd (WritePageData m pageID b)) = snd (Write f b)"
    by (simp add: WritePageData_def cs off_def f_def Write_def Let_def)
  have "(off + 4096) mod 4096 = 0"
    using od by simp
  then have "length (contents (snd (Write f b))) mod 4096 = 0"
    using al by (simp add: Write_length f_def lb max_def)
  then show ?thesis
    by (simp add: w page_aligned_def PageSize_def)
qed

text \<open>The page \<open>2^51 - 1\<close> would end at byte \<open>2^63\<close>, one past the largest offset: the seek
  succeeds and the write is refused.\<close>

lemma WritePageData_last_page:
  assumes "length b = PageSize"
  shows "(0 :: PageID) \<le>s 2 ^ 51 - 1"
    and "WritePageData m (2 ^ 51 - 1) b =
           (Some WriteFailed, m\<lparr>heap := (heap m)\<lparr>pos := 2 ^ 63 - 4096\<rparr>\<rparr>)"
proof -
  show a: "(0 :: PageID) \<le>s 2 ^ 51 - 1"
    by (simp add: word_sle_eq)
  have b: "(2 ^ 51 - 1 :: PageID) <s 2 ^ 51"
    by (simp add: word_sless_alt)
  have u: "unat (2 ^ 51 - 1 :: PageID) * 4096 = 2 ^ 63 - 4096"
    by simp
  have cs: "checkSeek m (2 ^ 51 - 1) b = (None, m\<lparr>heap := (heap m)\<lparr>pos := 2 ^ 63 - 4096\<rparr>\<rparr>)"
    using checkSeek_valid [OF assms a b, of m] by (simp only: u)
  have "MaxOffset < pos ((heap m)\<lparr>pos := 2 ^ 63 - 4096\<rparr>) + length b"
    using assms by (simp add: MaxOffset_def PageSize_def)
  then show "WritePageData m (2 ^ 51 - 1) b =
           (Some WriteFailed, m\<lparr>heap := (heap m)\<lparr>pos := 2 ^ 63 - 4096\<rparr>\<rparr>)"
    unfolding WritePageData_def cs by (simp add: Write_refused)
qed

section \<open>The disk manager: round trip, allocation, argument checks\<close>

text \<open>
  Claim C2, amended. For every page identifier \<open>0 \<le> pageID < 2^51 - 1\<close> (those whose
  page ends within the largest file offset, \<open>pageID \<times> 4096 + 4096 \<le> 2^63 - 1\<close>) and all
  buffers \<open>b\<close>, \<open>b'\<close> of 4096 bytes, \<^verbatim>\<open>WritePageData(pageID, b)\<close> followed by
  \<^verbatim>\<open>ReadPageData(pageID, b')\<close> on the same manager both succeed and leave \<open>b'\<close> equal to
  \<open>b\<close>.
\<close>

theorem write_read_roundtrip:
  assumes "length b = PageSize" and "length b' = PageSize"
    and "0 \<le>s pageID" and "pageID <s 2 ^ 51 - 1"
  shows "\<exists>m1 m2. WritePageData m pageID b = (None, m1) \<and> ReadPageData m1 pageID b' = (None, m2, b)"
proof -
  note e = page_end_offset [OF assms(3,4)]
  define f where "f = (heap m)\<lparr>pos := unat pageID * 4096\<rparr>"
  define m1 where "m1 = m\<lparr>heap := snd (Write f b)\<rparr>"
  have w: "WritePageData m pageID b = (None, m1)"
    by (simp add: WritePageData_valid [OF assms(1,3,4)] m1_def f_def)
  have ne: "b \<noteq> []"
    using assms(1) by (auto simp: PageSize_def)
  have mo: "pos f + length b \<le> MaxOffset"
    using e(2) assms(1) by (simp add: f_def PageSize_def)
  have cs: "checkSeek m1 pageID b' = (None, m1\<lparr>heap := (snd (Write f b))\<lparr>pos := pos f\<rparr>\<rparr>)"
    by (simp add: checkSeek_valid [OF assms(2,3) e(1)] m1_def f_def)
  have rd: "Read ((snd (Write f b))\<lparr>pos := pos f\<rparr>) b' =
           ((length b, None), (snd (Write f b))\<lparr>pos := pos f + length b\<rparr>, b)"
    using Read_after_Write [of b b' f f] assms(1,2) ne mo by simp
  have "ReadPageData m1 pageID b' =
          (None, m1\<lparr>heap := (snd (Write f b))\<lparr>pos := pos f + length b\<rparr>\<rparr>, b)"
    by (simp add: ReadPageData_def cs rd)
  with w show ?thesis by blast
qed

text \<open>
  Claim C2 at page 3 of a new heap file.
\<close>

theorem write_read_roundtrip_witness:
  "length leaf_page = PageSize \<and> length high_page = PageSize \<and>
   (0 :: PageID) \<le>s 3 \<and> (3 :: PageID) <s 2 ^ 51 - 1 \<and>
   (\<exists>m1 m2. WritePageData fresh_manager 3 leaf_page = (None, m1) \<and>
             ReadPageData m1 3 high_page = (None, m2, leaf_page))"
proof -
  have a: "(0 :: PageID) \<le>s 3" and b: "(3 :: PageID) <s 2 ^ 51 - 1"
    by (simp_all add: word_sle_eq word_sless_alt)
  from write_read_roundtrip [OF length_leaf_page length_high_page a b, of fresh_manager]
    length_leaf_page length_high_page a b
  show ?thesis by (intro conjI)
qed

text \<open>
  Claim C2 as stated fails: \<open>2^51\<close> is a page identifier \<open>\<ge> 0\<close>, but its byte offset
  wraps around to \<open>-2^63\<close>, the seek is refused and \<^verbatim>\<open>WritePageData\<close> fails. So is
  \<open>2^51 - 1\<close>: its page would end at byte \<open>2^63\<close>, beyond the largest file offset, and the
  write is refused.
\<close>

theorem write_read_roundtrip_counterexample:
  "length leaf_page = PageSize \<and> (0 :: PageID) \<le>s 2 ^ 51 \<and>
   WritePageData fresh_manager (2 ^ 51) leaf_page = (Some SeekFailed, fresh_manager) \<and>
   (0 :: PageID) \<le>s 2 ^ 51 - 1 \<and>
   fst (WritePageData fresh_manager (2 ^ 51 - 1) leaf_page) = Some WriteFailed"
proof -
  have a: "(0 :: PageID) \<le>s 2 ^ 51" and b: "\<not> (2 ^ 51 :: PageID) \<le>s InvalidID"
    by (simp_all add: word_sle_eq InvalidID_def)
  have "sint ((2 ^ 51 :: PageID) * word_of_nat PageSize) < 0"
    by (simp add: PageSize_def)
  then have "Seek (heap fresh_manager) (2 ^ 51 * word_of_nat PageSize) = Inl EINVAL"
    by (simp only: Seek_def if_True)
  then have s: "WritePageData fresh_manager (2 ^ 51) leaf_page = (Some SeekFailed, fresh_manager)"
    using b length_leaf_page by (simp add: WritePageData_def checkSeek_def)
  have w: "fst (WritePageData fresh_manager (2 ^ 51 - 1) leaf_page) = Some WriteFailed"
    by (simp only: WritePageData_last_page(2) [OF length_leaf_page] fst_conv)
  from length_leaf_page a s WritePageData_last_page(1) [OF length_leaf_page] w show ?thesis
    by (intro conjI)
qed

text \<open>
  Claim C5, amended. \<^verbatim>\<open>NewFileManager\<close> fails when the length of the heap file is not a
  multiple of 4096 and otherwise sets \<open>nextID\<close> to the length divided by 4096.
  \<^verbatim>\<open>AllocateNewPage\<close> never fails and leaves the file untouched, and \<open>k\<close> successive calls
  return \<open>nextID, nextID + 1, ..., nextID + k - 1\<close> in \<^verbatim>\<open>int64\<close> arithmetic. After
  \<^verbatim>\<open>NewFileManager\<close>, and as long as \<open>length / 4096 + k \<le> 2^63\<close>, these are the numbers
  \<open>length / 4096 + i\<close>, strictly increasing and distinct.
\<close>

theorem AllocateNewPage_sequence:
  "(length c < 2 ^ 63 \<longrightarrow>
      NewFileManager c =
        (if length c mod PageSize \<noteq> 0 then Inl InvalidHeapSize
         else Inr \<lparr>heap = \<lparr>contents = c, pos = 0\<rparr>,
                   fm_nextID = word_of_nat (length c div PageSize)\<rparr>)) \<and>
   snd (fst (AllocateNewPage m)) = None \<and> heap (snd (AllocateNewPage m)) = heap m \<and>
   map snd (fst (allocate_times k m)) = replicate k None \<and>
   heap (snd (allocate_times k m)) = heap m \<and>
   map fst (fst (allocate_times k m)) = map (\<lambda>i. fm_nextID m + word_of_nat i) [0..<k] \<and>
   (length c < 2 ^ 63 \<and> NewFileManager c = Inr m \<and> length c div PageSize + k \<le> 2 ^ 63 \<longrightarrow>
      map (sint \<circ> fst) (fst (allocate_times k m)) =
        map (\<lambda>i. int (length c div PageSize + i)) [0..<k] \<and>
      sorted_wrt (<s) (map fst (fst (allocate_times k m))) \<and>
      distinct (map fst (fst (allocate_times k m))))"
proof (intro conjI impI; (elim conjE)?)
  show "NewFileManager c =
        (if length c mod PageSize \<noteq> 0 then Inl InvalidHeapSize
         else Inr \<lparr>heap = \<lparr>contents = c, pos = 0\<rparr>,
                   fm_nextID = word_of_nat (length c div PageSize)\<rparr>)"
    if "length c < 2 ^ 63"
    using that by (rule NewFileManager_eq)
  show "snd (fst (AllocateNewPage m)) = None" and "heap (snd (AllocateNewPage m)) = heap m"
    by (simp_all add: AllocateNewPage_def)
  show "map snd (fst (allocate_times k m)) = replicate k None"
    by (simp add: allocate_times_eq o_def map_replicate_const)
  show "heap (snd (allocate_times k m)) = heap m"
    by (simp add: allocate_times_eq)
  show "map fst (fst (allocate_times k m)) = map (\<lambda>i. fm_nextID m + word_of_nat i) [0..<k]"
    by (rule allocate_times_ids)
next
  assume a: "length c < 2 ^ 63" "NewFileManager c = Inr m" "length c div PageSize + k \<le> 2 ^ 63"
  note n = NewFileManager_nextID [OF a(1,2)]
  have b: "unat (fm_nextID m) + k \<le> 2 ^ 63"
    using a(3) by (simp only: n(2))
  show "map (sint \<circ> fst) (fst (allocate_times k m)) =
        map (\<lambda>i. int (length c div PageSize + i)) [0..<k]"
    using allocate_times_increasing(1) [OF n(1) b] by (simp only: n(2))
  show "sorted_wrt (<s) (map fst (fst (allocate_times k m)))"
    by (rule allocate_times_increasing(2) [OF n(1) b])
  show "distinct (map fst (fst (allocate_times k m)))"
    by (rule allocate_times_increasing(3) [OF n(1) b])
qed

text \<open>
  Claim C5 at a heap file of two pages, followed by three allocations, and at a heap file
  of three bytes.
\<close>

theorem AllocateNewPage_sequence_witness:
  "length (replicate 8192 (0 :: byte)) < 2 ^ 63 \<and>
   length (replicate 8192 (0 :: byte)) div PageSize + 3 \<le> 2 ^ 63 \<and>
   NewFileManager (replicate 8192 0) =
     Inr \<lparr>heap = \<lparr>contents = replicate 8192 0, pos = 0\<rparr>, fm_nextID = 2\<rparr> \<and>
   map (sint \<circ> fst)
     (fst (allocate_times 3 \<lparr>heap = \<lparr>contents = replicate 8192 0, pos = 0\<rparr>, fm_nextID = 2\<rparr>)) =
     [2, 3, 4] \<and>
   length [1, 2, 3 :: byte] < 2 ^ 63 \<and> NewFileManager [1, 2, 3] = Inl InvalidHeapSize"
proof -
  let ?c = "replicate 8192 (0 :: byte)"
  let ?m = "\<lparr>heap = \<lparr>contents = ?c, pos = 0\<rparr>, fm_nextID = 2\<rparr>"
  have a: "length ?c < 2 ^ 63" "length ?c div PageSize + 3 \<le> 2 ^ 63"
    "length [1, 2, 3 :: byte] < 2 ^ 63"
    by (simp_all add: PageSize_def)
  have n: "NewFileManager ?c = Inr ?m"
    using AllocateNewPage_sequence [of ?c ?m 3] a(1) by (simp add: PageSize_def)
  have u: "[0..<3] = [0, 1, 2]"
    by (simp add: upt_rec)
  have i: "map (sint \<circ> fst) (fst (allocate_times 3 ?m)) = [2, 3, 4]"
    using AllocateNewPage_sequence [of ?c ?m 3] a(1,2) n by (simp add: PageSize_def u)
  have f: "NewFileManager [1, 2, 3] = Inl InvalidHeapSize"
    using AllocateNewPage_sequence [of "[1, 2, 3]" ?m 3] a(3) by (simp add: PageSize_def)
  from a(1,2) n i a(3) f show ?thesis
    by (intro conjI)
qed

text \<open>
  Claim C5 as stated fails for \<open>k = 2^63 + 1\<close> on a new heap file: the counter wraps
  around, the last identifier returned is \<open>-2^63\<close>, and the identifiers are not strictly
  increasing.
\<close>

theorem AllocateNewPage_sequence_counterexample:
  "NewFileManager [] = Inr fresh_manager \<and>
   \<not> sorted_wrt (<s) (map fst (fst (allocate_times (2 ^ 63 + 1) fresh_manager)))"
proof -
  let ?k = "2 ^ 63 + 1 :: nat"
  let ?ids = "map fst (fst (allocate_times ?k fresh_manager))"
  have ids: "?ids = map (\<lambda>i. word_of_nat i) [0..<?k]"
    by (simp add: allocate_times_eq o_def fresh_manager_def)
  have len: "length ?ids = ?k"
    unfolding ids by simp
  have z: "?ids ! 0 = 0"
    unfolding ids by (subst nth_map) simp_all
  have h: "?ids ! (2 ^ 63) = word_of_nat (2 ^ 63)"
    unfolding ids by (subst nth_map) simp_all
  have "\<not> (0 :: PageID) <s word_of_nat (2 ^ 63)"
    by (simp add: word_sless_alt)
  then have "\<not> ?ids ! 0 <s ?ids ! (2 ^ 63)"
    by (simp only: z h not_False_eq_True)
  moreover have "(0 :: nat) < 2 ^ 63" and "(2 ^ 63 :: nat) < length ?ids"
    by (simp_all only: len) simp_all
  ultimately have "\<not> sorted_wrt (<s) ?ids"
    unfolding sorted_wrt_iff_nth_less by blast
  then show ?thesis
    by (simp only: NewFileManager_empty) simp
qed

text \<open>
  Claim C6, amended. \<^verbatim>\<open>ReadPageData\<close> and \<^verbatim>\<open>WritePageData\<close> fail with the invalid-page-size
  error whenever the buffer does not have 4096 bytes, and with the invalid-page-id error
  whenever it has and \<open>pageID \<le> -1\<close>; neither the file nor the buffer is touched. With a
  4096-byte buffer and \<open>0 \<le> pageID < 2^51\<close>, on a heap file of whole pages, the read seeks
  to \<open>pageID \<times> 4096\<close> and either reads exactly the 4096 bytes there or, when the file ends
  before them, fails with the read error; when the seek is refused (the offset computed in
  \<^verbatim>\<open>int64\<close> is negative) both fail with the seek error.
\<close>

theorem page_io_argument_checks:
  "(length b \<noteq> PageSize \<longrightarrow>
      ReadPageData m pageID b = (Some InvalidPageSize, m, b) \<and>
      WritePageData m pageID b = (Some InvalidPageSize, m)) \<and>
   (length b = PageSize \<and> pageID \<le>s - 1 \<longrightarrow>
      ReadPageData m pageID b = (Some InvalidPageIDErr, m, b) \<and>
      WritePageData m pageID b = (Some InvalidPageIDErr, m)) \<and>
   (length b = PageSize \<and> 0 \<le>s pageID \<and> pageID <s 2 ^ 51 \<and> page_aligned m \<longrightarrow>
      ReadPageData m pageID b =
        (if unat pageID * 4096 + 4096 \<le> length (contents (heap m))
         then (None, m\<lparr>heap := (heap m)\<lparr>pos := unat pageID * 4096 + 4096\<rparr>\<rparr>,
               take 4096 (drop (unat pageID * 4096) (contents (heap m))))
         else (Some ReadFailed, m\<lparr>heap := (heap m)\<lparr>pos := unat pageID * 4096\<rparr>\<rparr>, b))) \<and>
   (length b = PageSize \<and> 0 \<le>s pageID \<and> sint (pageID * word_of_nat PageSize) < 0 \<longrightarrow>
      ReadPageData m pageID b = (Some SeekFailed, m, b) \<and>
      WritePageData m pageID b = (Some SeekFailed, m))"
proof (intro conjI impI; (elim conjE)?)
  assume "length b \<noteq> PageSize"
  then show "ReadPageData m pageID b = (Some InvalidPageSize, m, b)"
    and "WritePageData m pageID b = (Some InvalidPageSize, m)"
    by (simp_all add: ReadPageData_def WritePageData_def checkSeek_def)
next
  assume "length b = PageSize" and "pageID \<le>s - 1"
  then show "ReadPageData m pageID b = (Some InvalidPageIDErr, m, b)"
    and "WritePageData m pageID b = (Some InvalidPageIDErr, m)"
    by (simp_all add: ReadPageData_def WritePageData_def checkSeek_def sle_InvalidID)
next
  assume "length b = PageSize" and "0 \<le>s pageID" and "pageID <s 2 ^ 51" and "page_aligned m"
  then show "ReadPageData m pageID b =
        (if unat pageID * 4096 + 4096 \<le> length (contents (heap m))
         then (None, m\<lparr>heap := (heap m)\<lparr>pos := unat pageID * 4096 + 4096\<rparr>\<rparr>,
               take 4096 (drop (unat pageID * 4096) (contents (heap m))))
         else (Some ReadFailed, m\<lparr>heap := (heap m)\<lparr>pos := unat pageID * 4096\<rparr>\<rparr>, b))"
    by (rule ReadPageData_valid)
next
  assume a: "length b = PageSize" "0 \<le>s pageID" "sint (pageID * word_of_nat PageSize) < 0"
  then have "Seek (heap m) (pageID * word_of_nat PageSize) = Inl EINVAL"
    by (simp only: Seek_def if_True)
  then show "ReadPageData m pageID b = (Some SeekFailed, m, b)"
    and "WritePageData m pageID b = (Some SeekFailed, m)"
    using a(1) not_sle_InvalidID [OF a(2)]
    by (simp_all add: ReadPageData_def WritePageData_def checkSeek_def)
qed

text \<open>
  Claim C6 on a heap file of one page: an empty buffer, the identifier \<open>-1\<close>, page 0
  (read), page 1 (past the end) and page \<open>2^51\<close> (seek refused).
\<close>

theorem page_io_argument_checks_witness:
  "length ([] :: byte list) \<noteq> PageSize \<and>
   ReadPageData one_page_manager 0 [] = (Some InvalidPageSize, one_page_manager, []) \<and>
   length high_page = PageSize \<and> (- 1 :: PageID) \<le>s - 1 \<and>
   ReadPageData one_page_manager (- 1) high_page = (Some InvalidPageIDErr, one_page_manager, high_page) \<and>
   (0 :: PageID) \<le>s 0 \<and> (0 :: PageID) <s 2 ^ 51 \<and> page_aligned one_page_manager \<and>
   ReadPageData one_page_manager 0 high_page =
     (None, one_page_manager\<lparr>heap := (heap one_page_manager)\<lparr>pos := 4096\<rparr>\<rparr>, replicate 4096 9) \<and>
   (0 :: PageID) \<le>s 1 \<and> (1 :: PageID) <s 2 ^ 51 \<and>
   ReadPageData one_page_manager 1 high_page =
     (Some ReadFailed, one_page_manager\<lparr>heap := (heap one_page_manager)\<lparr>pos := 4096\<rparr>\<rparr>, high_page) \<and>
   (0 :: PageID) \<le>s 2 ^ 51 \<and> sint ((2 ^ 51 :: PageID) * word_of_nat PageSize) < 0 \<and>
   ReadPageData one_page_manager (2 ^ 51) high_page = (Some SeekFailed, one_page_manager, high_page)"
proof -
  have a: "length ([] :: byte list) \<noteq> PageSize"
    by (simp add: PageSize_def)
  have b: "(- 1 :: PageID) \<le>s - 1" "(0 :: PageID) \<le>s 0" "(0 :: PageID) <s 2 ^ 51"
    "(0 :: PageID) \<le>s 1" "(1 :: PageID) <s 2 ^ 51" "(0 :: PageID) \<le>s 2 ^ 51"
    by (simp_all add: word_sle_eq word_sless_alt)
  have c: "sint ((2 ^ 51 :: PageID) * word_of_nat PageSize) < 0"
    by (simp add: PageSize_def)
  have d: "length (contents (heap one_page_manager)) = 4096"
    "contents (heap one_page_manager) = replicate 4096 9"
    by (simp_all add: one_page_manager_def)
  note t = page_io_argument_checks [where m = one_page_manager]
  have 1: "ReadPageData one_page_manager 0 [] = (Some InvalidPageSize, one_page_manager, [])"
    using t [of "[]" 0] a by blast
  have 2: "ReadPageData one_page_manager (- 1) high_page =
             (Some InvalidPageIDErr, one_page_manager, high_page)"
    using t [of high_page "- 1"] length_high_page b(1) by blast
  have 3: "ReadPageData one_page_manager 0 high_page =
     (None, one_page_manager\<lparr>heap := (heap one_page_manager)\<lparr>pos := 4096\<rparr>\<rparr>, replicate 4096 9)"
    using t [of high_page 0] length_high_page b(2,3) page_aligned_one_page
    by (simp add: d)
  have 4: "ReadPageData one_page_manager 1 high_page =
     (Some ReadFailed, one_page_manager\<lparr>heap := (heap one_page_manager)\<lparr>pos := 4096\<rparr>\<rparr>, high_page)"
    using t [of high_page 1] length_high_page b(4,5) page_aligned_one_page
    by (simp add: d)
  have 5: "ReadPageData one_page_manager (2 ^ 51) high_page =
             (Some SeekFailed, one_page_manager, high_page)"
    using t [of high_page "2 ^ 51"] length_high_page b(6) c by blast
  from a 1 length_high_page b(1) 2 b(2,3) page_aligned_one_page 3 b(4,5) 4 b(6) c 5
  show ?thesis by (intro conjI)
qed

text \<open>
  Claim C6 as stated fails twice. With \<open>pageID = -1\<close> and an empty buffer the error is the
  invalid-page-size one, not the invalid-page-id one. With the valid arguments
  \<open>pageID = 2^52\<close> and a 4096-byte buffer, on a file of one page, the offset wraps around
  to 0: the read does not seek to \<open>2^52 \<times> 4096\<close> and does not fail, it returns page 0.
\<close>

theorem page_io_argument_checks_counterexample:
  "(- 1 :: PageID) \<le>s - 1 \<and>
   ReadPageData fresh_manager (- 1) [] = (Some InvalidPageSize, fresh_manager, []) \<and>
   length high_page = PageSize \<and> (0 :: PageID) \<le>s 2 ^ 52 \<and>
   length (contents (heap one_page_manager)) = 4096 \<and>
   ReadPageData one_page_manager (2 ^ 52) high_page =
     (None, one_page_manager\<lparr>heap := (heap one_page_manager)\<lparr>pos := 4096\<rparr>\<rparr>, replicate 4096 9)"
proof -
  have a: "(- 1 :: PageID) \<le>s - 1" "(0 :: PageID) \<le>s 2 ^ 52" "\<not> (2 ^ 52 :: PageID) \<le>s InvalidID"
    by (simp_all add: word_sle_eq InvalidID_def)
  have 1: "ReadPageData fresh_manager (- 1) [] = (Some InvalidPageSize, fresh_manager, [])"
    by (simp add: ReadPageData_def checkSeek_def PageSize_def)
  have "(2 ^ 52 :: PageID) * word_of_nat PageSize = 0"
    by (simp add: PageSize_def)
  then have "Seek (heap one_page_manager) (2 ^ 52 * word_of_nat PageSize) =
               Inr ((heap one_page_manager)\<lparr>pos := 0\<rparr>)"
    by (simp add: Seek_def)
  then have cs: "checkSeek one_page_manager (2 ^ 52) high_page =
                   (None, one_page_manager\<lparr>heap := (heap one_page_manager)\<lparr>pos := 0\<rparr>\<rparr>)"
    using a(3) length_high_page by (simp add: checkSeek_def)
  have l: "length high_page = 4096"
    using length_high_page by (simp add: PageSize_def)
  have 2: "ReadPageData one_page_manager (2 ^ 52) high_page =
     (None, one_page_manager\<lparr>heap := (heap one_page_manager)\<lparr>pos := 4096\<rparr>\<rparr>, replicate 4096 9)"
    unfolding ReadPageData_def cs by (simp add: Read_def l one_page_manager_def)
  have 3: "length (contents (heap one_page_manager)) = 4096"
    by (simp add: one_page_manager_def)
  from a(1) 1 length_high_page a(2) 3 2 show ?thesis
    by (intro conjI)
qed

section \<open>Facts about the B-tree on a pool\<close>

lemma NewPool_two:
  assumes "2 \<le> n"
  shows "\<exists>rest. NewPool n = empty_frame # empty_frame # rest"
proof -
  obtain k where "n = Suc (Suc k)"
    using assms by (metis Suc_le_D numeral_2_eq_2 Suc_le_mono)
  then show ?thesis
    by (simp add: NewPool_def empty_frame_def)
qed








text \<open>On a pool of one frame \<^verbatim>\<open>NewBTree\<close> fails: the Meta page stays pinned and the root page
  finds no frame.\<close>

lemma NewBTree_one_frame: "NewBTree pool1 = (Inl PoolExhausted, snd (FetchPage (snd (CreatePage pool1)) 0))"
  by (simp add: pool1_def NewPoolManager_def NewPool_def fresh_manager_def NewBTree_def
      CreatePage_def FetchPage_def evict_def victim_def AllocateNewPage_def Let_def InvalidID_def
      word_sle_eq)

section \<open>The pins of a B-tree\<close>




end
